theory Spec2Isabelle
  imports Main "HOL-Library.Word"
begin

section \<open>JavaScript strings\<close>

text \<open>
  A JavaScript string is a sequence of UTF-16 code units. The regular expression of the
  Zig checker is written without the \<open>u\<close> flag, so it works on code units, and the
  status text of \<open>showStatus\<close> holds characters outside ASCII: strings are modelled as
  lists of 16-bit words. \<open>utf16\<close> turns an ASCII literal into its code units.
\<close>

type_synonym code_unit = "16 word"
type_synonym jsstring = "code_unit list"

definition utf16 :: "string \<Rightarrow> jsstring" where
  "utf16 s = map of_char s"

text \<open>
  \<open>String.prototype.split('\n')\<close>: the pieces between the line feeds (code unit 10),
  in order. The empty string gives one empty piece, and a trailing line feed gives a
  last empty piece. Only the line feed separates: a carriage return stays in its piece.
\<close>

fun split_newline :: "jsstring \<Rightarrow> jsstring list" where
  "split_newline [] = [[]]"
| "split_newline (c # cs) =
     (if c = 0x0A then [] # split_newline cs
      else (case split_newline cs of
              [] \<Rightarrow> [[c]]
            | l # ls \<Rightarrow> (c # l) # ls))"

text \<open>\<open>Array.prototype.join(sep)\<close>.\<close>

fun join :: "jsstring \<Rightarrow> jsstring list \<Rightarrow> jsstring" where
  "join sep [] = []"
| "join sep [x] = x"
| "join sep (x # y # ys) = x @ sep @ join sep (y # ys)"

section \<open>The Zig checker: \<open>zigConfig.parseOutput\<close>\<close>

subsection \<open>The regular expression\<close>

text \<open>
  \<^verbatim>\<open>/^.+?:(\d+):(\d+): (error|warning|note): (.+)$/\<close>, without flags.

  Without the \<open>s\<close> flag, \<open>.\<close> matches every code unit but the four line terminators
  of ECMAScript: LF, CR, U+2028 and U+2029. Without the \<open>u\<close> and \<open>i\<close> flags, \<open>\d\<close> is
  \<open>[0-9]\<close>. Without the \<open>m\<close> flag, \<open>^\<close> is the start and \<open>$\<close> the end of the input.
\<close>

definition is_line_terminator :: "code_unit \<Rightarrow> bool" where
  "is_line_terminator c \<longleftrightarrow> c = 0x0A \<or> c = 0x0D \<or> c = 0x2028 \<or> c = 0x2029"

definition is_digit :: "code_unit \<Rightarrow> bool" where
  "is_digit c \<longleftrightarrow> 0x30 \<le> c \<and> c \<le> 0x39"

text \<open>A literal piece of the pattern: the input must start with it; the rest is returned.\<close>

definition lit :: "jsstring \<Rightarrow> jsstring \<Rightarrow> jsstring option" where
  "lit p s = (if take (length p) s = p then Some (drop (length p) s) else None)"

text \<open>
  \<open>(\d+)\<close>, greedy: the longest run of digits, which must not be empty. Both uses are
  followed by the literal \<open>:\<close>, which is no digit, so giving digits back by backtracking
  can never make the rest match: only the longest run is tried.
\<close>

definition digits1 :: "jsstring \<Rightarrow> (jsstring \<times> jsstring) option" where
  "digits1 s =
     (let d = takeWhile is_digit s
      in if d = [] then None else Some (d, dropWhile is_digit s))"

text \<open>
  \<open>(error|warning|note)\<close>: the alternatives in their order. They start with different
  letters, so at most one of them matches and backtracking into the group changes nothing.
\<close>

definition severity_word :: "jsstring \<Rightarrow> (jsstring \<times> jsstring) option" where
  "severity_word s =
     (case lit (utf16 ''error'') s of
        Some r \<Rightarrow> Some (utf16 ''error'', r)
      | None \<Rightarrow>
          (case lit (utf16 ''warning'') s of
             Some r \<Rightarrow> Some (utf16 ''warning'', r)
           | None \<Rightarrow>
               (case lit (utf16 ''note'') s of
                  Some r \<Rightarrow> Some (utf16 ''note'', r)
                | None \<Rightarrow> None)))"

text \<open>
  \<open>(.+)$\<close>: one or more code units that are no line terminators, up to the end of the
  input.
\<close>

definition rest_of_line :: "jsstring \<Rightarrow> jsstring option" where
  "rest_of_line s =
     (if s \<noteq> [] \<and> (\<forall>c \<in> set s. \<not> is_line_terminator c) then Some s else None)"

text \<open>The array a successful \<open>match\<close> returns: the whole match and the four groups.\<close>

record regexp_match =
  whole :: jsstring
  group1 :: jsstring
  group2 :: jsstring
  group3 :: jsstring
  group4 :: jsstring

text \<open>
  The pattern after its lazy head, \<^verbatim>\<open>:(\d+):(\d+): (error|warning|note): (.+)$\<close>,
  matched at the start of \<open>s\<close>; \<open>l\<close> is the whole line.
\<close>

definition match_tail :: "jsstring \<Rightarrow> jsstring \<Rightarrow> regexp_match option" where
  "match_tail l s =
     (case lit (utf16 '':'') s of None \<Rightarrow> None | Some s1 \<Rightarrow>
      (case digits1 s1 of None \<Rightarrow> None | Some (g1, s2) \<Rightarrow>
      (case lit (utf16 '':'') s2 of None \<Rightarrow> None | Some s3 \<Rightarrow>
      (case digits1 s3 of None \<Rightarrow> None | Some (g2, s4) \<Rightarrow>
      (case lit (utf16 '': '') s4 of None \<Rightarrow> None | Some s5 \<Rightarrow>
      (case severity_word s5 of None \<Rightarrow> None | Some (g3, s6) \<Rightarrow>
      (case lit (utf16 '': '') s6 of None \<Rightarrow> None | Some s7 \<Rightarrow>
      (case rest_of_line s7 of None \<Rightarrow> None | Some g4 \<Rightarrow>
         Some \<lparr>whole = l, group1 = g1, group2 = g2, group3 = g3, group4 = g4\<rparr>))))))))"

text \<open>
  \<open>.+?\<close> is lazy: having taken its first code unit it tries the rest of the pattern, and
  takes one more code unit (which must be no line terminator) each time the rest fails.
  \<open>lazy_head l s\<close> is the state in which the head has taken at least one code unit and
  \<open>s\<close> is what remains of the line.
\<close>

fun lazy_head :: "jsstring \<Rightarrow> jsstring \<Rightarrow> regexp_match option" where
  "lazy_head l [] = None"
| "lazy_head l (c # cs) =
     (case match_tail l (c # cs) of
        Some m \<Rightarrow> Some m
      | None \<Rightarrow> if is_line_terminator c then None else lazy_head l cs)"

text \<open>
  \<open>line.match(/^.+?:(\d+):(\d+): (error|warning|note): (.+)$/)\<close>: \<open>None\<close> is \<open>null\<close>.
  The pattern is anchored at the start and has no \<open>g\<close> flag, so the only attempt is the
  one at position 0.
\<close>

definition zig_match :: "jsstring \<Rightarrow> regexp_match option" where
  "zig_match l =
     (case l of
        [] \<Rightarrow> None
      | c # cs \<Rightarrow> if is_line_terminator c then None else lazy_head l cs)"

subsection \<open>Diagnostics\<close>

datatype severity = Error | Warning | Info

text \<open>
  A JavaScript number is a double. The numbers \<open>parseInt\<close> gives for a string of digits
  are the non-negative integers that are doubles, and \<open>Infinity\<close>.
\<close>

datatype jsnumber = Finite nat | Infinity

record diagnostic_result =
  line :: jsnumber
  column :: jsnumber
  severity :: severity
  message :: jsstring

text \<open>The decimal value of a string of digits, as a mathematical integer.\<close>

fun digits_value :: "nat \<Rightarrow> jsstring \<Rightarrow> nat" where
  "digits_value acc [] = acc"
| "digits_value acc (c # cs) = digits_value (10 * acc + (unat c - 0x30)) cs"

text \<open>The number of binary digits of a natural number.\<close>

fun bit_length :: "nat \<Rightarrow> nat" where
  "bit_length n = (if n = 0 then 0 else Suc (bit_length (n div 2)))"

declare bit_length.simps [simp del]

text \<open>
  The double of a non-negative integer: the integer itself below \<open>2^53\<close>; beyond, the
  nearest integer with 53 significant binary digits, the even one of two that are equally
  near, and \<open>Infinity\<close> when that is \<open>2^1024\<close> or more. \<open>q\<close> holds the leading 53
  binary digits, \<open>r\<close> the \<open>e\<close> digits cut off.
\<close>

definition round_to_double :: "nat \<Rightarrow> jsnumber" where
  "round_to_double n =
     (if n < 2 ^ 53 then Finite n
      else
        (let e = bit_length n - 53;
             q = n div 2 ^ e;
             r = n mod 2 ^ e;
             q' = (if 2 ^ e < 2 * r \<or> (2 * r = 2 ^ e \<and> odd q) then q + 1 else q);
             v = q' * 2 ^ e
         in if v < 2 ^ 1024 then Finite v else Infinity))"

text \<open>
  \<open>parseInt\<close> on a string of decimal digits, which is all the parser gives it (a group
  matched by \<open>\d+\<close>): no white space, sign or radix prefix is involved, and the result is
  the double of the decimal value. (ECMAScript allows an implementation to read the
  digits after the twentieth significant one as zeros; the model rounds the exact value.)
\<close>

definition parseInt :: "jsstring \<Rightarrow> jsnumber" where
  "parseInt s = round_to_double (digits_value 0 s)"

text \<open>The comparison \<open>x >= k\<close> of a number with a natural number.\<close>

definition at_least :: "nat \<Rightarrow> jsnumber \<Rightarrow> bool" where
  "at_least k x = (case x of Finite n \<Rightarrow> k \<le> n | Infinity \<Rightarrow> True)"

subsection \<open>The loop\<close>

text \<open>
  Reading an element of \<open>match\<close> raises a \<open>TypeError\<close> when \<open>match\<close> is \<open>null\<close>. This is
  the only operation of \<open>parseOutput\<close> that can raise on string arguments.
\<close>

datatype error = TypeError

fun element :: "regexp_match option \<Rightarrow> (regexp_match \<Rightarrow> jsstring) \<Rightarrow> error + jsstring" where
  "element None g = Inl TypeError"
| "element (Some m) g = Inr (g m)"

definition bind_result :: "error + 'a \<Rightarrow> ('a \<Rightarrow> error + 'b) \<Rightarrow> error + 'b" where
  "bind_result r f = (case r of Inl e \<Rightarrow> Inl e | Inr x \<Rightarrow> f x)"

text \<open>A string is truthy when it is not empty.\<close>

definition truthy :: "jsstring \<Rightarrow> bool" where
  "truthy s \<longleftrightarrow> s \<noteq> []"

text \<open>
  \<open>match && match[1] && match[2] && match[3] && match[4]\<close>: \<open>&&\<close> evaluates its right
  operand only when the left one is truthy, and \<open>null\<close> is falsy.
\<close>

definition match_guard :: "regexp_match option \<Rightarrow> error + bool" where
  "match_guard m =
     (if m = None then Inr False
      else bind_result (element m group1) (\<lambda>m1.
        if \<not> truthy m1 then Inr False
        else bind_result (element m group2) (\<lambda>m2.
          if \<not> truthy m2 then Inr False
          else bind_result (element m group3) (\<lambda>m3.
            if \<not> truthy m3 then Inr False
            else bind_result (element m group4) (\<lambda>m4. Inr (truthy m4))))))"

text \<open>
  The severity starts as \<open>error\<close> and is overwritten for \<open>warning\<close> and for \<open>note\<close>.
\<close>

definition normalize_severity :: "jsstring \<Rightarrow> severity" where
  "normalize_severity severityStr =
     (let severity = Error;
          severity = (if severityStr = utf16 ''warning'' then Warning else severity);
          severity = (if severityStr = utf16 ''note'' then Info else severity)
      in severity)"

text \<open>The body of the \<open>for\<close> loop, for one line; \<open>diagnostics.push\<close> appends.\<close>

definition parse_line :: "jsstring \<Rightarrow> diagnostic_result list \<Rightarrow> error + diagnostic_result list" where
  "parse_line l diagnostics =
     (let m = zig_match l
      in bind_result (match_guard m) (\<lambda>ok.
           if \<not> ok then Inr diagnostics
           else bind_result (element m group3) (\<lambda>severityStr.
                bind_result (element m group1) (\<lambda>m1.
                bind_result (element m group2) (\<lambda>m2.
                bind_result (element m group4) (\<lambda>m4.
                  Inr (diagnostics @
                    [\<lparr>line = parseInt m1, column = parseInt m2,
                      severity = normalize_severity severityStr, message = m4\<rparr>])))))))"

fun parse_lines :: "jsstring list \<Rightarrow> diagnostic_result list \<Rightarrow> error + diagnostic_result list" where
  "parse_lines [] diagnostics = Inr diagnostics"
| "parse_lines (l # ls) diagnostics =
     bind_result (parse_line l diagnostics) (parse_lines ls)"

definition parseOutput ::
  "jsstring \<Rightarrow> jsstring \<Rightarrow> jsstring \<Rightarrow> jsstring \<Rightarrow> error + diagnostic_result list" where
  "parseOutput stdout stderr file projectRoot = parse_lines (split_newline stderr) []"

subsection \<open>The pattern, as a decomposition of the line\<close>

text \<open>
  The shape \<open>path:line:column: (error|warning|note): message\<close>, said without the
  matcher: the line splits into a path, two groups of digits, one of the three words and
  a message. It is what the theorems about \<open>zig_match\<close> are stated against.
\<close>

definition zig_pattern ::
  "jsstring \<Rightarrow> jsstring \<Rightarrow> jsstring \<Rightarrow> jsstring \<Rightarrow> jsstring \<Rightarrow> jsstring \<Rightarrow> bool" where
  "zig_pattern l path g1 g2 g3 g4 \<longleftrightarrow>
     l = path @ utf16 '':'' @ g1 @ utf16 '':'' @ g2 @ utf16 '': '' @ g3 @ utf16 '': '' @ g4 \<and>
     path \<noteq> [] \<and> (\<forall>c \<in> set path. \<not> is_line_terminator c) \<and>
     g1 \<noteq> [] \<and> (\<forall>c \<in> set g1. is_digit c) \<and>
     g2 \<noteq> [] \<and> (\<forall>c \<in> set g2. is_digit c) \<and>
     g3 \<in> {utf16 ''error'', utf16 ''warning'', utf16 ''note''} \<and>
     g4 \<noteq> [] \<and> (\<forall>c \<in> set g4. \<not> is_line_terminator c)"

text \<open>The diagnostic pushed for a match, and the diagnostics (none or one) of a line.\<close>

definition diagnostic_of :: "regexp_match \<Rightarrow> diagnostic_result" where
  "diagnostic_of m =
     \<lparr>line = parseInt (group1 m), column = parseInt (group2 m),
      severity = normalize_severity (group3 m), message = group4 m\<rparr>"

definition line_diagnostics :: "jsstring \<Rightarrow> diagnostic_result list" where
  "line_diagnostics l = (case zig_match l of None \<Rightarrow> [] | Some m \<Rightarrow> [diagnostic_of m])"

section \<open>The status display: \<open>showStatus\<close>\<close>

text \<open>
  \<open>loadConfig\<close> lives in the module \<open>./config\<close>, which is not modelled: its result is
  a parameter. A field
  of the record is true when the property of the loaded object is exactly \<open>true\<close>
  (the code compares with \<open>=== true\<close>). \<open>None\<close> stands for a \<open>loadConfig\<close> that
  throws, which the \<open>try\<close> block swallows.
\<close>

record config =
  disable :: bool
  disableScala :: bool
  disableTypeScript :: bool
  disablePython :: bool
  disableGo :: bool
  disableRust :: bool
  disableJava :: bool
  disableCpp :: bool
  disablePhp :: bool
  disableLua :: bool
  disableElixir :: bool
  disableTerraform :: bool
  disableZig :: bool

definition globalDisabled :: "config option \<Rightarrow> bool" where
  "globalDisabled loaded = (case loaded of None \<Rightarrow> False | Some c \<Rightarrow> disable c)"

definition add_if :: "bool \<Rightarrow> string \<Rightarrow> jsstring set \<Rightarrow> jsstring set" where
  "add_if b n s = (if b then insert (utf16 n) s else s)"

definition disabledLanguages :: "config option \<Rightarrow> jsstring set" where
  "disabledLanguages loaded =
     (case loaded of
        None \<Rightarrow> {}
      | Some c \<Rightarrow>
          add_if (disableZig c) ''Zig''
          (add_if (disableTerraform c) ''Terraform''
          (add_if (disableElixir c) ''Elixir''
          (add_if (disableLua c) ''Lua''
          (add_if (disablePhp c) ''PHP''
          (add_if (disableCpp c) ''C/C++''
          (add_if (disableJava c) ''Java''
          (add_if (disableRust c) ''Rust''
          (add_if (disableGo c) ''Go''
          (add_if (disablePython c) ''Python''
          (add_if (disableTypeScript c) ''TypeScript''
          (add_if (disableScala c) ''Scala'' {}))))))))))))"

text \<open>\<open>globalDisabled || disabledLanguages.has(name)\<close>.\<close>

definition isDisabled :: "config option \<Rightarrow> jsstring \<Rightarrow> bool" where
  "isDisabled loaded n \<longleftrightarrow> globalDisabled loaded \<or> n \<in> disabledLanguages loaded"

record language =
  name :: jsstring
  code :: jsstring
  command :: jsstring
  versionArg :: jsstring
  install :: jsstring

definition lang :: "string \<Rightarrow> string \<Rightarrow> string \<Rightarrow> string \<Rightarrow> string \<Rightarrow> language" where
  "lang n c cmd v i =
     \<lparr>name = utf16 n, code = utf16 c, command = utf16 cmd, versionArg = utf16 v, install = utf16 i\<rparr>"

definition languages :: "language list" where
  "languages =
     [lang ''TypeScript'' ''typescript'' ''tsc'' ''--version'' ''npm install -g typescript'',
      lang ''Python'' ''python'' ''pyright'' ''--version'' ''npm install -g pyright'',
      lang ''Go'' ''go'' ''go'' ''version'' ''Install Go from https://golang.org'',
      lang ''Rust'' ''rust'' ''rustc'' ''--version'' ''Install Rust from https://rustup.rs'',
      lang ''Java'' ''java'' ''javac'' ''-version'' ''Install Java JDK'',
      lang ''C/C++'' ''cpp'' ''gcc'' ''--version'' ''Install GCC or Clang'',
      lang ''PHP'' ''php'' ''php'' ''--version'' ''Install PHP'',
      lang ''Scala'' ''scala'' ''scalac'' ''-version'' ''Install Scala'',
      lang ''Lua'' ''lua'' ''luac'' ''-v'' ''Install Lua'',
      lang ''Elixir'' ''elixir'' ''elixir'' ''--version'' ''Install Elixir'',
      lang ''Terraform'' ''terraform'' ''terraform'' ''version'' ''Install Terraform'',
      lang ''Zig'' ''zig'' ''zig'' ''version'' ''Install Zig from https://ziglang.org'']"

text \<open>
  \<open>execCommand\<close> lives in the module \<open>utils/common\<close>, which is not modelled either:
  the promise it returns is either rejected or resolved with an exit code. The callback of \<open>languages.map\<close>
  catches the rejection, so the promise of a probe is always fulfilled.
\<close>

datatype exec_outcome = Rejected | Resolved int

record probe_result =
  result_name :: jsstring
  result_code :: jsstring
  available :: bool
  result_install :: jsstring

definition probe :: "(jsstring list \<Rightarrow> exec_outcome) \<Rightarrow> language \<Rightarrow> probe_result" where
  "probe execCommand lg =
     (case execCommand [command lg, versionArg lg] of
        Resolved exitCode \<Rightarrow>
          \<lparr>result_name = name lg, result_code = code lg,
           available = (exitCode = 0), result_install = install lg\<rparr>
      | Rejected \<Rightarrow>
          \<lparr>result_name = name lg, result_code = code lg,
           available = False, result_install = install lg\<rparr>)"

text \<open>
  \<open>await Promise.all(checks)\<close>. The probes run concurrently and finish in some order:
  \<open>order\<close> lists the indices of the promises in the order in which they are fulfilled,
  and \<open>vs ! i\<close> is the value of promise \<open>i\<close>. \<open>Promise.all\<close> keeps one slot for each
  promise and stores each value in the slot of its promise; it is fulfilled, with the
  values of the slots, once every slot is filled. \<open>None\<close> is an \<open>await\<close> that never
  returns, because some promise is never fulfilled.
\<close>

definition fulfil :: "'a list \<Rightarrow> nat \<Rightarrow> 'a option list \<Rightarrow> 'a option list" where
  "fulfil vs i slots = (if i < length vs then slots[i := Some (vs ! i)] else slots)"

definition promise_all :: "'a list \<Rightarrow> nat list \<Rightarrow> 'a list option" where
  "promise_all vs order = those (fold (fulfil vs) order (replicate (length vs) None))"

definition no_entry :: jsstring where
  "no_entry = [0xD83D, 0xDEAB]"

definition check_mark :: jsstring where
  "check_mark = [0x2705]"

definition cross_mark :: jsstring where
  "cross_mark = [0x274C]"

text \<open>The body of the display loop: \<open>messages.push\<close> of the line of one result.\<close>

definition status_line :: "config option \<Rightarrow> probe_result \<Rightarrow> jsstring" where
  "status_line loaded result =
     (if isDisabled loaded (result_name result) then
        utf16 ''  '' @ no_entry @ utf16 '' '' @ result_name result @ utf16 '' ('' @
        result_code result @ utf16 ''): DISABLED via config''
      else if available result then
        utf16 ''  '' @ check_mark @ utf16 '' '' @ result_name result @ utf16 '' ('' @
        result_code result @ utf16 ''): Available''
      else
        utf16 ''  '' @ cross_mark @ utf16 '' '' @ result_name result @ utf16 '' ('' @
        result_code result @ utf16 ''): Not found - '' @ result_install result)"

fun display :: "config option \<Rightarrow> probe_result list \<Rightarrow> jsstring list \<Rightarrow> jsstring list" where
  "display loaded [] messages = messages"
| "display loaded (result # results) messages =
     display loaded results (messages @ [status_line loaded result])"

definition status_header :: "config option \<Rightarrow> jsstring list" where
  "status_header loaded =
     [[0x0A] @ utf16 ''Current Status:'' @ [0x0A]] @
     (if globalDisabled loaded
      then [utf16 ''  '' @ no_entry @ utf16 '' All language checking is DISABLED via config'']
      else [])"

text \<open>
  \<open>showStatus\<close>: the text it returns, which is also the text it hands to \<open>log\<close>.
\<close>

definition showStatus ::
  "config option \<Rightarrow> (jsstring list \<Rightarrow> exec_outcome) \<Rightarrow> nat list \<Rightarrow> jsstring option" where
  "showStatus loaded execCommand order =
     (let messages = status_header loaded;
          checks = map (probe execCommand) languages
      in case promise_all checks order of
           None \<Rightarrow> None
         | Some results \<Rightarrow> Some (join [0x0A] (display loaded results messages)))"


section \<open>The language configuration of Zig\<close>

text \<open>
  The type \<open>LanguageConfig\<close> is declared in the registry module, which is not modelled;
  the record has the fields \<open>zigConfig\<close> gives. \<open>detectConfig\<close> reads
  the file system and is left out; no claim depends on it.
\<close>

record language_config =
  config_name :: jsstring
  tool :: jsstring
  extensions :: "jsstring list"
  localPaths :: "jsstring list"
  buildArgs :: "jsstring \<Rightarrow> jsstring \<Rightarrow> jsstring \<Rightarrow> jsstring list"
  config_parseOutput ::
    "jsstring \<Rightarrow> jsstring \<Rightarrow> jsstring \<Rightarrow> jsstring \<Rightarrow> error + diagnostic_result list"

definition zigConfig :: language_config where
  "zigConfig =
     \<lparr>config_name = utf16 ''Zig'', tool = utf16 ''zig'', extensions = [utf16 ''.zig''],
      localPaths = [],
      buildArgs = (\<lambda>file projectRoot toolCommand. [utf16 ''ast-check'', file]),
      config_parseOutput = parseOutput\<rparr>"

section \<open>The output formatter\<close>

text \<open>
  Modelled from the spec: the \<open>CheckResult\<close> of section 3, which the Check Engine builds
  and the Output Formatter consumes. Both components are missing from the sources.
\<close>

record check_result =
  result_file :: jsstring
  language :: jsstring
  diagnostics :: "diagnostic_result list"
  toolAvailable :: bool

text \<open>
  Modelled from the spec: the severity aggregation of section 4.4, missing from the
  sources: "total error count and total warning count are computed by a single pass over
  the diagnostics; info severity [...] never affects the exit code or the error/warning
  counts". The pair is (errors, warnings).
\<close>

fun aggregate :: "diagnostic_result list \<Rightarrow> nat \<times> nat \<Rightarrow> nat \<times> nat" where
  "aggregate [] counts = counts"
| "aggregate (d # ds) (errors, warnings) =
     aggregate ds
       (case severity d of
          Error \<Rightarrow> (errors + 1, warnings)
        | Warning \<Rightarrow> (errors, warnings + 1)
        | Info \<Rightarrow> (errors, warnings))"

text \<open>
  Modelled from the spec: the exit code of the Output Formatter (section 4.4), missing
  from the sources: "0 when there are zero errors and zero warnings; 2 when there is at
  least one [...] (error or warning both count toward the non-zero exit)".
\<close>

definition exit_code :: "diagnostic_result list \<Rightarrow> int" where
  "exit_code ds = (case aggregate ds (0, 0) of (errors, warnings) \<Rightarrow>
     if errors = 0 \<and> warnings = 0 then 0 else 2)"

text \<open>
  Modelled from the spec: the decimal numeral of a count, as the summary line of the
  Output Formatter (missing from the sources) shows it in "N error(s), M warning(s)".
\<close>

fun decimal :: "nat \<Rightarrow> jsstring" where
  "decimal n =
     (if n < 10 then [of_nat (48 + n)]
      else decimal (n div 10) @ [of_nat (48 + n mod 10)])"

declare decimal.simps [simp del]

text \<open>
  Modelled from the spec: the summary line of the Output Formatter (section 4.4), missing
  from the sources: "a summary line with the count of errors and warnings (e.g. "N
  error(s), M warning(s)")".
\<close>

definition summary :: "diagnostic_result list \<Rightarrow> jsstring" where
  "summary ds = (case aggregate ds (0, 0) of (errors, warnings) \<Rightarrow>
     decimal errors @ utf16 '' error(s), '' @ decimal warnings @ utf16 '' warning(s)'')"

text \<open>
  Modelled from the spec: the failure marker that prefixes the summary line of the Output
  Formatter, missing from the sources. The spec does not spell it; the tests of the
  repository expect the ballot cross U+2717 and a space.
\<close>

definition failure_marker :: jsstring where
  "failure_marker = [0x2717, 0x20]"

text \<open>
  Modelled from the spec: the "No issues found" line of the Output Formatter, missing
  from the sources.
\<close>

definition no_issues :: jsstring where
  "no_issues = utf16 ''No issues found''"

text \<open>
  Modelled from the spec: what a run of the Output Formatter (missing from the sources)
  leaves behind: the lines written to standard output, the pieces written to standard
  error, and the exit code.
\<close>

record formatted =
  stdout_lines :: "jsstring list"
  stderr_lines :: "jsstring list"
  exit :: int

text \<open>
  Modelled from the spec: the lines of the report of the Output Formatter (section 4.4),
  missing from the sources: "a summary line [...] prefixed by a failure marker when
  count > 0, or an explicit "No issues found" line when the diagnostic list is empty".
  The spec says that diagnostics are "reported in detail" and leaves the format of the
  detail open: \<open>detail\<close> is a parameter.
\<close>

definition report :: "(diagnostic_result \<Rightarrow> jsstring) \<Rightarrow> diagnostic_result list \<Rightarrow> jsstring list" where
  "report detail ds =
     (if ds = [] then [no_issues]
      else (failure_marker @ summary ds) # map detail ds)"

text \<open>
  Modelled from the spec: the plain mode of the Output Formatter (section 4.4), missing
  from the sources. The \<open>check\<close> command "writes to stdout" (section 2).
\<close>

definition format_plain :: "(diagnostic_result \<Rightarrow> jsstring) \<Rightarrow> check_result \<Rightarrow> formatted" where
  "format_plain detail r =
     \<lparr>stdout_lines = report detail (diagnostics r), stderr_lines = [],
      exit = exit_code (diagnostics r)\<rparr>"

text \<open>
  Modelled from the spec: the "editor-recognized escape sequence" of the hook mode of
  the Output Formatter (section 4.4), missing from the sources. The spec does not spell
  it; the tests of the repository look for the marker \<open>]633;E;\<close>. What comes before the
  marker and what ends the sequence are parameters.
\<close>

record escape_sequence =
  before_marker :: jsstring
  terminator :: jsstring

text \<open>
  Modelled from the spec: a payload "wrapped in" the escape sequence of the Output
  Formatter, which is missing from the sources: the payload stands between the marker
  and the terminator.
\<close>

definition enclose :: "escape_sequence \<Rightarrow> jsstring \<Rightarrow> jsstring" where
  "enclose esc payload = before_marker esc @ utf16 '']633;E;'' @ payload @ terminator esc"

text \<open>
  Modelled from the spec: the hook mode of the Output Formatter (section 4.4), missing
  from the sources: "the same information is wrapped in an editor-recognized escape
  sequence written to standard error (not standard output) [...] Exit code discipline is
  identical". For a check without diagnostics the hook tests of the repository expect an
  empty standard error with exit code 0: there nothing is written.
\<close>

definition format_hook ::
  "escape_sequence \<Rightarrow> (diagnostic_result \<Rightarrow> jsstring) \<Rightarrow> check_result \<Rightarrow> formatted" where
  "format_hook esc detail r =
     \<lparr>stdout_lines = [],
      stderr_lines =
        (if diagnostics r = [] then []
         else [enclose esc (join [0x0A] (report detail (diagnostics r)))]),
      exit = exit_code (diagnostics r)\<rparr>"

section \<open>The check engine\<close>

text \<open>
  Modelled from the spec: what the Process Runner (section 4.2, missing from the sources)
  returns for a tool that ran.
\<close>

record process_output =
  proc_stdout :: jsstring
  proc_stderr :: jsstring
  proc_exitCode :: int

text \<open>
  Modelled from the spec: the collaborators of the Check Engine (section 4.3), all missing
  from the sources, as parameters: the lookup of the Language Registry, the persisted
  configuration, the search for the tool (project-local first, then system-wide; \<open>None\<close>
  when neither exists) and the Process Runner.
\<close>

record engine_env =
  resolve :: "jsstring \<Rightarrow> language_config option"
  persisted :: "config option"
  find_tool :: "language_config \<Rightarrow> jsstring \<Rightarrow> jsstring option"
  run_process :: "jsstring list \<Rightarrow> jsstring \<Rightarrow> process_output"

text \<open>
  Modelled from the spec: the effects a claim speaks about, threaded through the Check
  Engine and the Hook Handler (both missing from the sources): how often the Check Engine
  was invoked, and the command lines the Process Runner spawned, in order.
\<close>

record run_state =
  engine_calls :: nat
  spawned :: "jsstring list list"

text \<open>
  Modelled from the spec: the Check Engine (section 4.3, steps 1 to 6), missing from the
  sources. Step 1: no registered language gives "an empty, tool-unavailable result".
  Step 2: a disabled language gives "an empty result without invoking any tool"; the
  flags are those \<open>showStatus\<close> reads. Step 3: no tool gives a tool-not-found result.
  Steps 4 and 5: \<open>buildArgs\<close>, the Process Runner, \<open>parseOutput\<close>; a parser that throws is
  caught and "downgrade[d] to an empty diagnostic list".
\<close>

definition check_engine ::
  "engine_env \<Rightarrow> jsstring \<Rightarrow> jsstring \<Rightarrow> run_state \<Rightarrow> check_result \<times> run_state" where
  "check_engine env f projectRoot st =
     (let st1 = st\<lparr>engine_calls := engine_calls st + 1\<rparr>
      in case resolve env f of
           None \<Rightarrow>
             (\<lparr>result_file = f, language = [], diagnostics = [], toolAvailable = False\<rparr>, st1)
         | Some lc \<Rightarrow>
             if isDisabled (persisted env) (config_name lc) then
               (\<lparr>result_file = f, language = config_name lc, diagnostics = [], toolAvailable = True\<rparr>,
                st1)
             else
               (case find_tool env lc projectRoot of
                  None \<Rightarrow>
                    (\<lparr>result_file = f, language = config_name lc, diagnostics = [],
                      toolAvailable = False\<rparr>, st1)
                | Some toolPath \<Rightarrow>
                    (let argv = toolPath # buildArgs lc f projectRoot toolPath;
                         out = run_process env argv projectRoot;
                         ds = (case config_parseOutput lc (proc_stdout out) (proc_stderr out)
                                      f projectRoot of
                                 Inl e \<Rightarrow> []
                               | Inr ds \<Rightarrow> ds)
                     in (\<lparr>result_file = f, language = config_name lc, diagnostics = ds,
                          toolAvailable = True\<rparr>,
                         st1\<lparr>spawned := spawned st1 @ [argv]\<rparr>))))"

text \<open>
  Modelled from the spec: the \<open>check\<close> command (section 6), missing from the sources:
  "runs Check Engine + plain Output Formatter".
\<close>

definition check_command ::
  "engine_env \<Rightarrow> (diagnostic_result \<Rightarrow> jsstring) \<Rightarrow> jsstring \<Rightarrow> jsstring \<Rightarrow> run_state \<Rightarrow>
     formatted \<times> run_state" where
  "check_command env detail f projectRoot st =
     (case check_engine env f projectRoot st of (r, st') \<Rightarrow> (format_plain detail r, st'))"

section \<open>The hook handler\<close>

text \<open>
  Modelled from the spec: the \<open>HookEvent\<close> of section 3, the input of the Hook Handler,
  which is missing from the sources.
\<close>

record hook_event =
  tool_name :: jsstring
  file_path :: jsstring
  cwd :: jsstring

text \<open>
  Modelled from the spec: the Hook Handler (section 4.5), missing from the sources.
  \<open>parse_payload\<close> reads the standard input as a hook event and gives \<open>None\<close> for a
  missing or malformed payload; \<open>triggers\<close> holds for the tool names that create or edit
  files. The spec spells neither: both are parameters. Step 2: "Missing or malformed
  payloads cause a silent no-op with exit code 0". Step 3: other tool names "are silently
  ignored (exit 0, no output)". Step 4: the Check Engine runs on \<open>file_path\<close> with \<open>cwd\<close>
  as project root, and the result is rendered in hook mode.
\<close>

definition hook_handler ::
  "engine_env \<Rightarrow> (jsstring \<Rightarrow> hook_event option) \<Rightarrow> (jsstring \<Rightarrow> bool) \<Rightarrow>
     escape_sequence \<Rightarrow> (diagnostic_result \<Rightarrow> jsstring) \<Rightarrow> jsstring \<Rightarrow> run_state \<Rightarrow>
     formatted \<times> run_state" where
  "hook_handler env parse_payload triggers esc detail stdin st =
     (case parse_payload stdin of
        None \<Rightarrow> (\<lparr>stdout_lines = [], stderr_lines = [], exit = 0\<rparr>, st)
      | Some ev \<Rightarrow>
          if \<not> triggers (tool_name ev) then
            (\<lparr>stdout_lines = [], stderr_lines = [], exit = 0\<rparr>, st)
          else
            (case check_engine env (file_path ev) (cwd ev) st of
               (r, st') \<Rightarrow> (format_hook esc detail r, st')))"


section \<open>Example inputs\<close>

text \<open>
  Concrete inputs for the examples that follow the theorems: a configuration that
  disables Zig only, an environment in which every file is a Zig file and the tool
  reports one error, a payload reader that knows two payloads, a trigger that holds
  for the tool name \<open>Edit\<close>, the one the hook tests send, and an escape sequence that
  starts with ESC and ends with BEL.
\<close>

definition zig_only :: "config" where
  "zig_only = \<lparr>disable = False, disableScala = False, disableTypeScript = False,
     disablePython = False, disableGo = False, disableRust = False, disableJava = False,
     disableCpp = False, disablePhp = False, disableLua = False, disableElixir = False,
     disableTerraform = False, disableZig = True\<rparr>"

definition sample_env :: "config \<Rightarrow> engine_env" where
  "sample_env c = \<lparr>resolve = (\<lambda>f. Some zigConfig), persisted = Some c,
     find_tool = (\<lambda>lc root. Some (utf16 ''/usr/bin/zig'')),
     run_process = (\<lambda>argv dir. \<lparr>proc_stdout = [], proc_stderr = utf16 ''a.zig:1:1: error: e'',
        proc_exitCode = 1\<rparr>)\<rparr>"

definition sample_parse :: "jsstring \<Rightarrow> hook_event option" where
  "sample_parse s =
     (if s = utf16 ''edit'' then
        Some \<lparr>tool_name = utf16 ''Edit'', file_path = utf16 ''a.zig'', cwd = utf16 ''/p''\<rparr>
      else if s = utf16 ''read'' then
        Some \<lparr>tool_name = utf16 ''Read'', file_path = utf16 ''a.zig'', cwd = utf16 ''/p''\<rparr>
      else None)"

definition sample_triggers :: "jsstring \<Rightarrow> bool" where
  "sample_triggers n \<longleftrightarrow> n = utf16 ''Edit''"

definition sample_escape :: escape_sequence where
  "sample_escape = \<lparr>before_marker = [0x1B], terminator = [0x07]\<rparr>"

section \<open>Properties of the Zig checker\<close>

subsection \<open>The matcher and the pattern\<close>

lemma lit_Some: "lit p s = Some r \<Longrightarrow> s = p @ r"
  by (auto simp: lit_def split: if_splits) (metis append_take_drop_id)

lemma lit_append: "lit p (p @ r) = Some r"
  by (simp add: lit_def)

lemma digits1_Some:
  "digits1 s = Some (d, r) \<Longrightarrow> s = d @ r \<and> d \<noteq> [] \<and> (\<forall>c \<in> set d. is_digit c)"
  by (auto simp: digits1_def Let_def split: if_splits dest: set_takeWhileD)

lemma digits1_append:
  "d \<noteq> [] \<Longrightarrow> \<forall>c \<in> set d. is_digit c \<Longrightarrow> \<not> is_digit x \<Longrightarrow> digits1 (d @ x # r) = Some (d, x # r)"
  by (simp add: digits1_def Let_def takeWhile_append2 dropWhile_append2)

lemma severity_word_Some:
  "severity_word s = Some (w, r) \<Longrightarrow>
     s = w @ r \<and> w \<in> {utf16 ''error'', utf16 ''warning'', utf16 ''note''}"
  by (auto simp: severity_word_def split: option.splits dest: lit_Some)

lemma severity_word_append:
  "w \<in> {utf16 ''error'', utf16 ''warning'', utf16 ''note''} \<Longrightarrow> severity_word (w @ r) = Some (w, r)"
  by (auto simp: severity_word_def lit_def utf16_def)

lemma rest_of_line_Some:
  "rest_of_line s = Some g \<Longrightarrow> g = s \<and> s \<noteq> [] \<and> (\<forall>c \<in> set s. \<not> is_line_terminator c)"
  by (auto simp: rest_of_line_def split: if_splits)

lemma match_tail_Some:
  assumes "match_tail l s = Some m"
  shows "s = utf16 '':'' @ group1 m @ utf16 '':'' @ group2 m @ utf16 '': '' @ group3 m @ utf16 '': '' @ group4 m \<and>
     whole m = l \<and>
     group1 m \<noteq> [] \<and> (\<forall>c \<in> set (group1 m). is_digit c) \<and>
     group2 m \<noteq> [] \<and> (\<forall>c \<in> set (group2 m). is_digit c) \<and>
     group3 m \<in> {utf16 ''error'', utf16 ''warning'', utf16 ''note''} \<and>
     group4 m \<noteq> [] \<and> (\<forall>c \<in> set (group4 m). \<not> is_line_terminator c)"
proof -
  from assms obtain s1 g1 s2 s3 g2 s4 s5 g3 s6 s7 g4 where
    a: "lit (utf16 '':'') s = Some s1" "digits1 s1 = Some (g1, s2)"
       "lit (utf16 '':'') s2 = Some s3" "digits1 s3 = Some (g2, s4)"
       "lit (utf16 '': '') s4 = Some s5" "severity_word s5 = Some (g3, s6)"
       "lit (utf16 '': '') s6 = Some s7" "rest_of_line s7 = Some g4"
    and m: "m = \<lparr>whole = l, group1 = g1, group2 = g2, group3 = g3, group4 = g4\<rparr>"
    by (auto simp: match_tail_def split: option.splits prod.splits)
  from a have "s = utf16 '':'' @ g1 @ utf16 '':'' @ g2 @ utf16 '': '' @ g3 @ utf16 '': '' @ g4"
    by (auto dest!: lit_Some digits1_Some severity_word_Some rest_of_line_Some)
  moreover from a have "g1 \<noteq> [] \<and> (\<forall>c \<in> set g1. is_digit c) \<and> g2 \<noteq> [] \<and> (\<forall>c \<in> set g2. is_digit c)"
    by (auto dest!: digits1_Some)
  moreover from a have "g3 \<in> {utf16 ''error'', utf16 ''warning'', utf16 ''note''}"
    by (auto dest!: severity_word_Some)
  moreover from a have "g4 \<noteq> [] \<and> (\<forall>c \<in> set g4. \<not> is_line_terminator c)"
    by (auto dest!: rest_of_line_Some)
  ultimately show ?thesis using m by simp
qed

lemma lazy_head_Some:
  "lazy_head l s = Some m \<Longrightarrow>
     \<exists>p t. s = p @ t \<and> (\<forall>c \<in> set p. \<not> is_line_terminator c) \<and> match_tail l t = Some m"
proof (induction s)
  case Nil
  then show ?case by simp
next
  case (Cons c cs)
  show ?case
  proof (cases "match_tail l (c # cs)")
    case (Some m')
    with Cons.prems have "match_tail l (c # cs) = Some m" by simp
    then have "c # cs = [] @ (c # cs) \<and> (\<forall>c \<in> set []. \<not> is_line_terminator c) \<and> match_tail l (c # cs) = Some m"
      by simp
    then show ?thesis by blast
  next
    case None
    with Cons.prems have nt: "\<not> is_line_terminator c" and "lazy_head l cs = Some m"
      by (auto split: if_splits)
    with Cons.IH obtain p t where "cs = p @ t" "\<forall>c \<in> set p. \<not> is_line_terminator c" "match_tail l t = Some m"
      by blast
    with nt have "c # cs = (c # p) @ t \<and> (\<forall>x \<in> set (c # p). \<not> is_line_terminator x) \<and> match_tail l t = Some m"
      by simp
    then show ?thesis by blast
  qed
qed

lemma zig_match_Some:
  assumes "zig_match l = Some m"
  shows "\<exists>path. zig_pattern l path (group1 m) (group2 m) (group3 m) (group4 m)" and "whole m = l"
proof -
  from assms obtain c cs where l: "l = c # cs" and nt: "\<not> is_line_terminator c"
    and lh: "lazy_head l cs = Some m"
    by (auto simp: zig_match_def split: list.splits if_splits)
  from lazy_head_Some [OF lh] obtain p t where
    pt: "cs = p @ t" "\<forall>c \<in> set p. \<not> is_line_terminator c" "match_tail l t = Some m"
    by blast
  note mt = match_tail_Some [OF pt(3)]
  from mt show "whole m = l" by simp
  have "zig_pattern l (c # p) (group1 m) (group2 m) (group3 m) (group4 m)"
    unfolding zig_pattern_def using l nt pt(1,2) mt by simp
  then show "\<exists>path. zig_pattern l path (group1 m) (group2 m) (group3 m) (group4 m)" ..
qed


lemma match_tail_complete:
  assumes "g1 \<noteq> []" "\<forall>c \<in> set g1. is_digit c" "g2 \<noteq> []" "\<forall>c \<in> set g2. is_digit c"
    "g3 \<in> {utf16 ''error'', utf16 ''warning'', utf16 ''note''}"
    "g4 \<noteq> []" "\<forall>c \<in> set g4. \<not> is_line_terminator c"
  shows "match_tail l (utf16 '':'' @ g1 @ utf16 '':'' @ g2 @ utf16 '': '' @ g3 @ utf16 '': '' @ g4) =
     Some \<lparr>whole = l, group1 = g1, group2 = g2, group3 = g3, group4 = g4\<rparr>"
proof -
  have colon: "\<And>r. utf16 '':'' @ r = 0x3A # r" and nd: "\<not> is_digit 0x3A"
    by (simp_all add: utf16_def is_digit_def)
  have d1: "\<And>r. digits1 (g1 @ utf16 '':'' @ r) = Some (g1, utf16 '':'' @ r)"
    unfolding colon using assms(1,2) nd by (rule digits1_append)
  have cs: "\<And>r. utf16 '': '' @ r = 0x3A # 0x20 # r"
    by (simp add: utf16_def)
  have d2: "\<And>r. digits1 (g2 @ utf16 '': '' @ r) = Some (g2, utf16 '': '' @ r)"
    unfolding cs using assms(3,4) nd by (rule digits1_append)
  have r: "rest_of_line g4 = Some g4"
    using assms(6,7) by (simp add: rest_of_line_def)
  show ?thesis
    unfolding match_tail_def
    by (simp only: lit_append d1 d2 severity_word_append [OF assms(5)] r option.case prod.case)
qed

lemma lazy_head_complete:
  "\<forall>c \<in> set p. \<not> is_line_terminator c \<Longrightarrow> match_tail l t = Some m \<Longrightarrow>
     \<exists>m'. lazy_head l (p @ t) = Some m'"
proof (induction p)
  case Nil
  from match_tail_Some [OF Nil(2)] obtain c cs where "t = c # cs"
    by (cases t) (auto simp: utf16_def)
  with Nil show ?case by simp
next
  case (Cons c p)
  then show ?case by (cases "match_tail l (c # p @ t)") auto
qed

lemma zig_match_complete:
  assumes "zig_pattern l path g1 g2 g3 g4"
  shows "\<exists>m. zig_match l = Some m"
proof -
  let ?t = "utf16 '':'' @ g1 @ utf16 '':'' @ g2 @ utf16 '': '' @ g3 @ utf16 '': '' @ g4"
  from assms have l: "l = path @ ?t" and p: "path \<noteq> []" "\<forall>c \<in> set path. \<not> is_line_terminator c"
    by (simp_all add: zig_pattern_def)
  from assms have "match_tail l ?t = Some \<lparr>whole = l, group1 = g1, group2 = g2, group3 = g3, group4 = g4\<rparr>"
    unfolding zig_pattern_def by (intro match_tail_complete) simp_all
  moreover from p obtain c cs where pc: "path = c # cs" by (cases path) auto
  ultimately obtain m' where "lazy_head l (cs @ ?t) = Some m'"
    using lazy_head_complete [of cs l ?t] p(2) by auto
  with l pc p(2) show ?thesis by (simp add: zig_match_def)
qed

lemma zig_match_iff_pattern:
  "zig_match l \<noteq> None \<longleftrightarrow> (\<exists>path g1 g2 g3 g4. zig_pattern l path g1 g2 g3 g4)"
  using zig_match_Some(1) zig_match_complete by (metis option.exhaust option.distinct(1))


lemma match_guard_eq: "match_guard (zig_match l) = Inr (zig_match l \<noteq> None)"
proof (cases "zig_match l")
  case None
  then show ?thesis by (simp add: match_guard_def)
next
  case (Some m)
  from zig_match_Some(1) [OF Some] have "group1 m \<noteq> []" "group2 m \<noteq> []" "group3 m \<noteq> []" "group4 m \<noteq> []"
    by (auto simp: zig_pattern_def utf16_def)
  with Some show ?thesis by (simp add: match_guard_def bind_result_def truthy_def)
qed

lemma parse_line_eq: "parse_line l ds = Inr (ds @ line_diagnostics l)"
proof (cases "zig_match l")
  case None
  with match_guard_eq [of l] have "match_guard None = Inr False" by simp
  with None show ?thesis
    by (simp add: parse_line_def bind_result_def line_diagnostics_def)
next
  case (Some m)
  with match_guard_eq [of l] have "match_guard (Some m) = Inr True" by simp
  with Some show ?thesis
    by (simp add: parse_line_def bind_result_def line_diagnostics_def diagnostic_of_def)
qed

lemma parse_lines_eq: "parse_lines ls ds = Inr (ds @ concat (map line_diagnostics ls))"
  by (induction ls arbitrary: ds) (simp_all add: parse_line_eq bind_result_def)

lemma parseOutput_eq:
  "parseOutput stdout stderr file projectRoot = Inr (concat (map line_diagnostics (split_newline stderr)))"
  by (simp add: parseOutput_def parse_lines_eq)

lemma split_newline_not_Nil: "split_newline s \<noteq> []"
  by (induction s) (auto split: list.splits)

lemma split_newline_append:
  "split_newline (a @ 0x0A # b) = split_newline a @ split_newline b"
  by (induction a) (auto split: list.splits simp: split_newline_not_Nil)

lemma digits_value_mono: "acc \<le> digits_value acc s"
proof (induction s arbitrary: acc)
  case Nil
  show ?case by simp
next
  case (Cons c cs)
  have "acc \<le> 10 * acc + (unat c - 0x30)" by simp
  also have "\<dots> \<le> digits_value (10 * acc + (unat c - 0x30)) cs" by (rule Cons.IH)
  finally show ?case by simp
qed

lemma digit_zero: "is_digit c \<Longrightarrow> unat c - 0x30 = 0 \<longleftrightarrow> c = 0x30"
proof -
  assume "is_digit c"
  then have "48 \<le> unat c" by (simp add: is_digit_def word_le_nat_alt)
  moreover have "c = 0x30 \<longleftrightarrow> unat c = 48" by (simp add: word_unat_eq_iff)
  ultimately show ?thesis by auto
qed

lemma digits_value_zero:
  "\<forall>c \<in> set s. is_digit c \<Longrightarrow> digits_value acc s = 0 \<longleftrightarrow> acc = 0 \<and> (\<forall>c \<in> set s. c = 0x30)"
proof (induction s arbitrary: acc)
  case Nil
  show ?case by simp
next
  case (Cons c cs)
  from Cons.prems have "is_digit c" and cs: "\<forall>c \<in> set cs. is_digit c"
    by simp_all
  from \<open>is_digit c\<close> have c: "unat c - 0x30 = 0 \<longleftrightarrow> c = 0x30"
    by (rule digit_zero)
  have "digits_value acc (c # cs) = 0 \<longleftrightarrow> digits_value (10 * acc + (unat c - 0x30)) cs = 0"
    by simp
  also have "\<dots> \<longleftrightarrow> 10 * acc + (unat c - 0x30) = 0 \<and> (\<forall>c \<in> set cs. c = 0x30)"
    by (rule Cons.IH [OF cs])
  also have "\<dots> \<longleftrightarrow> acc = 0 \<and> (\<forall>x \<in> set (c # cs). x = 0x30)"
    using c by auto
  finally show ?case .
qed

subsection \<open>Numbers\<close>

lemma bit_length_lower: "0 < n \<Longrightarrow> 2 ^ (bit_length n - 1) \<le> n"
proof (induction n rule: bit_length.induct)
  case (1 n)
  show ?case
  proof (cases "n div 2 = 0")
    case True
    with 1(2) have "n = 1" by (simp add: div_eq_0_iff) 
    then show ?thesis by (simp add: bit_length.simps [of "Suc 0"] bit_length.simps [of 0])
  next
    case False
    with 1 have ih: "2 ^ (bit_length (n div 2) - 1) \<le> n div 2" by simp
    from False have "bit_length (n div 2) \<noteq> 0" by (simp add: bit_length.simps [of "n div 2"])
    then obtain k where k: "bit_length (n div 2) = Suc k" by (cases "bit_length (n div 2)") auto
    from 1(2) have "bit_length n = Suc (Suc k)" by (simp add: bit_length.simps [of n] k)
    moreover from ih k have "2 * 2 ^ k \<le> 2 * (n div 2)" by simp
    moreover have "2 * (n div 2) \<le> n" by simp
    ultimately show ?thesis by simp
  qed
qed

lemma round_to_double_small: "n < 2 ^ 53 \<Longrightarrow> round_to_double n = Finite n"
  by (simp add: round_to_double_def)

lemma round_to_double_large:
  assumes "\<not> n < 2 ^ 53"
  shows "round_to_double n =
    (let e = bit_length n - 53;
         q = n div 2 ^ e;
         r = n mod 2 ^ e;
         q' = (if 2 ^ e < 2 * r \<or> (2 * r = 2 ^ e \<and> odd q) then q + 1 else q);
         v = q' * 2 ^ e
     in if v < 2 ^ 1024 then Finite v else Infinity)"
  unfolding round_to_double_def by (simp only: assms if_False)

lemma at_least_one_round_to_double: "at_least 1 (round_to_double n) \<longleftrightarrow> n \<noteq> 0"
proof (cases "n < 2 ^ 53")
  case True
  then show ?thesis by (auto simp: round_to_double_small at_least_def)
next
  case False
  then have pos: "0 < n" by (cases n) auto
  define e where "e = bit_length n - 53"
  define q where "q = n div 2 ^ e"
  define r where "r = n mod 2 ^ e"
  define q' where "q' = (if 2 ^ e < 2 * r \<or> (2 * r = 2 ^ e \<and> odd q) then q + 1 else q)"
  have "(2::nat) ^ e \<le> 2 ^ (bit_length n - 1)"
    unfolding e_def by (rule power_increasing) simp_all
  also have "\<dots> \<le> n" by (rule bit_length_lower [OF pos])
  finally have "1 \<le> q" unfolding q_def by (simp add: div_greater_zero_iff Suc_le_eq)
  then have "1 \<le> q'" unfolding q'_def by simp
  then have v: "1 \<le> q' * 2 ^ e" by (simp add: Suc_le_eq)
  have "round_to_double n = (if q' * 2 ^ e < 2 ^ 1024 then Finite (q' * 2 ^ e) else Infinity)"
    unfolding round_to_double_large [OF False] Let_def e_def q_def r_def q'_def ..
  then have "at_least 1 (round_to_double n)"
    using v by (simp only: at_least_def jsnumber.case split: if_split) simp
  with pos show ?thesis by simp
qed


lemma bit_length_upper: "n < 2 ^ bit_length n"
proof (induction n rule: bit_length.induct)
  case (1 n)
  show ?case
  proof (cases "n = 0")
    case True
    then show ?thesis by simp
  next
    case False
    with 1 have "n div 2 < 2 ^ bit_length (n div 2)" by simp
    then have "n < 2 * 2 ^ bit_length (n div 2)" by linarith
    with False show ?thesis by (simp add: bit_length.simps [of n])
  qed
qed

lemma round_to_double_overflow:
  assumes "2 ^ 1024 \<le> n"
  shows "round_to_double n = Infinity"
proof -
  define M :: nat where "M = 2 ^ 1024"
  have M53: "(2::nat) ^ 53 \<le> M" unfolding M_def by (rule power_increasing) simp_all
  from assms have Mn: "M \<le> n" by (simp only: M_def)
  have "(0::nat) < 2 ^ 53" by (rule zero_less_power) simp
  with M53 Mn have pos: "0 < n" and big: "\<not> n < 2 ^ 53" by linarith+
  define e where "e = bit_length n - 53"
  define q where "q = n div 2 ^ e"
  define r where "r = n mod 2 ^ e"
  define q' where "q' = (if 2 ^ e < 2 * r \<or> (2 * r = 2 ^ e \<and> odd q) then q + 1 else q)"
  from Mn bit_length_upper [of n] have "M < 2 ^ bit_length n" by linarith
  then have "(2::nat) ^ 1024 < 2 ^ bit_length n" by (simp only: M_def)
  then have bl: "1024 < bit_length n" by (rule power_less_imp_less_exp [rotated]) simp
  then have e: "bit_length n - 1 = 52 + e" unfolding e_def by simp
  have "2 ^ 52 * 2 ^ e \<le> n"
    using bit_length_lower [OF pos] unfolding e by (simp add: power_add)
  then have "2 ^ 52 \<le> q"
    unfolding q_def by (simp add: less_eq_div_iff_mult_less_eq)
  then have "2 ^ 52 \<le> q'" unfolding q'_def by simp
  then have "2 ^ 52 * 2 ^ e \<le> q' * 2 ^ e" by (rule mult_le_mono1)
  then have "2 ^ (52 + e) \<le> q' * 2 ^ e" by (simp only: power_add)
  moreover have "M \<le> 2 ^ (52 + e)"
    unfolding M_def using bl by (intro power_increasing) (simp_all add: e_def)
  ultimately have "\<not> q' * 2 ^ e < M" by linarith
  then have "\<not> q' * 2 ^ e < 2 ^ 1024" unfolding M_def .
  then show ?thesis
    unfolding round_to_double_large [OF big] Let_def e_def q_def r_def q'_def
    by (simp only: if_False)
qed


text \<open>Two integers just above \<open>2^53\<close> that lie half way between two doubles.\<close>

lemma bit_length_54: "bit_length 9007199254740993 = 54" "bit_length 9007199254740995 = 54"
  by (simp_all add: bit_length.simps)

lemma round_to_double_ties:
  "round_to_double 9007199254740993 = Finite 9007199254740992"
  "round_to_double 9007199254740995 = Finite 9007199254740996"
  unfolding round_to_double_large [of 9007199254740993, simplified]
    round_to_double_large [of 9007199254740995, simplified] bit_length_54 Let_def
  by simp_all


lemma parseInt_at_least_one:
  "\<forall>c \<in> set s. is_digit c \<Longrightarrow> at_least 1 (parseInt s) \<longleftrightarrow> (\<exists>c \<in> set s. c \<noteq> 0x30)"
proof -
  assume "\<forall>c \<in> set s. is_digit c"
  then have z: "digits_value 0 s = 0 \<longleftrightarrow> (\<forall>c \<in> set s. c = 0x30)"
    using digits_value_zero [of s 0] by simp
  have "at_least 1 (parseInt s) \<longleftrightarrow> digits_value 0 s \<noteq> 0"
    unfolding parseInt_def by (rule at_least_one_round_to_double)
  also have "\<dots> \<longleftrightarrow> (\<exists>c \<in> set s. c \<noteq> 0x30)"
    unfolding z by blast
  finally show ?thesis .
qed

lemma parseInt_exact:
  "digits_value 0 s < 2 ^ 53 \<Longrightarrow> parseInt s = Finite (digits_value 0 s)"
  unfolding parseInt_def by (rule round_to_double_small)

subsection \<open>Results of the parser\<close>

text \<open>The definitions that evaluate the parser on a given text.\<close>

lemmas zig_eval = parseOutput_def parse_line_def zig_match_def match_tail_def lit_def digits1_def
  severity_word_def rest_of_line_def utf16_def is_digit_def is_line_terminator_def match_guard_def
  bind_result_def truthy_def parseInt_def round_to_double_def normalize_severity_def



text \<open>
  C2. For every standard output and standard error of the tool, empty and malformed text
  included, \<open>parseOutput\<close> of the Zig configuration returns a list of diagnostics: it
  never throws. For an empty standard error the list is empty.
\<close>

theorem parseOutput_never_throws:
  "(\<exists>ds. parseOutput stdout stderr f projectRoot = Inr ds) \<and>
   parseOutput stdout [] f projectRoot = Inr []"
proof
  show "\<exists>ds. parseOutput stdout stderr f projectRoot = Inr ds"
    by (simp add: parseOutput_eq)
  show "parseOutput stdout [] f projectRoot = Inr []"
    by (simp add: parseOutput_eq line_diagnostics_def zig_match_def)
qed

theorem parseOutput_never_throws_witness:
  "(\<exists>ds. parseOutput (utf16 ''ok'') (utf16 ''a.zig:3:5: error: bad'' @ [0x0A] @ utf16 ''garbage'')
            (utf16 ''a.zig'') (utf16 ''/p'') = Inr ds) \<and>
   parseOutput (utf16 ''ok'') (utf16 ''a.zig:3:5: error: bad'' @ [0x0A] @ utf16 ''garbage'')
     (utf16 ''a.zig'') (utf16 ''/p'') =
     Inr [\<lparr>line = Finite 3, column = Finite 5, severity = Error, message = utf16 ''bad''\<rparr>]"
proof
  show "\<exists>ds. parseOutput (utf16 ''ok'') (utf16 ''a.zig:3:5: error: bad'' @ [0x0A] @ utf16 ''garbage'')
            (utf16 ''a.zig'') (utf16 ''/p'') = Inr ds"
    using parseOutput_never_throws by blast
  show "parseOutput (utf16 ''ok'') (utf16 ''a.zig:3:5: error: bad'' @ [0x0A] @ utf16 ''garbage'')
     (utf16 ''a.zig'') (utf16 ''/p'') =
     Inr [\<lparr>line = Finite 3, column = Finite 5, severity = Error, message = utf16 ''bad''\<rparr>]"
    by (simp add: zig_eval)
qed



subsection \<open>Where a diagnostic comes from\<close>

lemma in_parseOutput:
  assumes "parseOutput stdout stderr f projectRoot = Inr ds" "d \<in> set ds"
  shows "\<exists>l \<in> set (split_newline stderr). \<exists>m. zig_match l = Some m \<and> d = diagnostic_of m"
proof -
  from assms have "d \<in> set (concat (map line_diagnostics (split_newline stderr)))"
    by (simp add: parseOutput_eq)
  then obtain l where l: "l \<in> set (split_newline stderr)" "d \<in> set (line_diagnostics l)"
    by auto
  show ?thesis
  proof (cases "zig_match l")
    case None
    with l(2) show ?thesis by (simp add: line_diagnostics_def)
  next
    case (Some m)
    with l(2) have "d = diagnostic_of m" by (simp add: line_diagnostics_def)
    with l(1) Some show ?thesis by blast
  qed
qed

lemma normalize_severity_cases:
  "normalize_severity w =
     (if w = utf16 ''note'' then Info else if w = utf16 ''warning'' then Warning else Error)"
  by (simp add: normalize_severity_def)


lemma severity_words_distinct:
  "utf16 ''error'' \<noteq> utf16 ''warning''" "utf16 ''error'' \<noteq> utf16 ''note''"
  "utf16 ''warning'' \<noteq> utf16 ''note''"
  by (simp_all add: utf16_def)

lemma in_parseOutput_pattern:
  assumes "parseOutput stdout stderr f projectRoot = Inr ds" and "d \<in> set ds"
  shows "\<exists>l \<in> set (split_newline stderr). \<exists>path g1 g2 w msg.
           zig_pattern l path g1 g2 w msg \<and>
           d = \<lparr>line = parseInt g1, column = parseInt g2,
                severity = normalize_severity w, message = msg\<rparr>"
proof -
  from in_parseOutput [OF assms] obtain l m where
    l: "l \<in> set (split_newline stderr)" and m: "zig_match l = Some m" and d: "d = diagnostic_of m"
    by blast
  from zig_match_Some(1) [OF m] obtain path where
    "zig_pattern l path (group1 m) (group2 m) (group3 m) (group4 m)" ..
  with l d show ?thesis unfolding diagnostic_of_def by blast
qed

text \<open>
  C3, as amended. Every diagnostic the Zig parser produces has severity error, warning or
  info: it comes from a line of standard error that has the pattern with the word
  "error", "warning" or "note", and its severity is error, warning or info accordingly.
  No other word is defaulted to error: when no line has the pattern with one of the
  three words, no diagnostic is produced.
\<close>

theorem zig_severity_from_word:
  assumes "parseOutput stdout stderr f projectRoot = Inr ds"
  shows "(\<forall>d \<in> set ds. \<exists>l \<in> set (split_newline stderr). \<exists>path g1 g2 w msg.
            zig_pattern l path g1 g2 w msg \<and> message d = msg \<and>
            (w = utf16 ''error'' \<and> severity d = Error \<or>
             w = utf16 ''warning'' \<and> severity d = Warning \<or>
             w = utf16 ''note'' \<and> severity d = Info)) \<and>
         ((\<forall>l \<in> set (split_newline stderr). \<forall>path g1 g2 w msg. \<not> zig_pattern l path g1 g2 w msg)
            \<longrightarrow> ds = [])"
proof -
  have a: "\<exists>l \<in> set (split_newline stderr). \<exists>path g1 g2 w msg.
            zig_pattern l path g1 g2 w msg \<and> message d = msg \<and>
            (w = utf16 ''error'' \<and> severity d = Error \<or>
             w = utf16 ''warning'' \<and> severity d = Warning \<or>
             w = utf16 ''note'' \<and> severity d = Info)" if "d \<in> set ds" for d
  proof -
    from in_parseOutput_pattern [OF assms that] obtain l path g1 g2 w msg where
      l: "l \<in> set (split_newline stderr)" and p: "zig_pattern l path g1 g2 w msg"
      and d: "d = \<lparr>line = parseInt g1, column = parseInt g2,
                severity = normalize_severity w, message = msg\<rparr>"
      by blast
    from p have "w \<in> {utf16 ''error'', utf16 ''warning'', utf16 ''note''}"
      by (simp add: zig_pattern_def)
    then have "w = utf16 ''error'' \<and> severity d = Error \<or>
       w = utf16 ''warning'' \<and> severity d = Warning \<or>
       w = utf16 ''note'' \<and> severity d = Info"
      unfolding d normalize_severity_cases using severity_words_distinct by auto
    moreover have "message d = msg" by (simp add: d)
    ultimately show ?thesis using l p by blast
  qed
  have "ds = []"
    if n: "\<forall>l \<in> set (split_newline stderr). \<forall>path g1 g2 w msg. \<not> zig_pattern l path g1 g2 w msg"
  proof (cases ds)
    case Nil
    then show ?thesis .
  next
    case (Cons d ds')
    then have "d \<in> set ds" by simp
    from a [OF this] n show ?thesis by blast
  qed
  with a show ?thesis by blast
qed

theorem zig_severity_from_word_witness:
  "parseOutput [] (utf16 ''a.zig:1:2: note: n'') (utf16 ''a.zig'') [] =
     Inr [\<lparr>line = Finite 1, column = Finite 2, severity = Info, message = utf16 ''n''\<rparr>] \<and>
   (\<exists>l \<in> set (split_newline (utf16 ''a.zig:1:2: note: n'')). \<exists>path g1 g2 w msg.
      zig_pattern l path g1 g2 w msg \<and> msg = utf16 ''n'' \<and> w = utf16 ''note'')"
proof -
  have h: "parseOutput [] (utf16 ''a.zig:1:2: note: n'') (utf16 ''a.zig'') [] =
     Inr [\<lparr>line = Finite 1, column = Finite 2, severity = Info, message = utf16 ''n''\<rparr>]"
    by (simp add: zig_eval)
  from zig_severity_from_word [OF h] h show ?thesis by auto
qed

text \<open>
  A line with another word where the severity stands gives no diagnostic at all.
\<close>

theorem zig_unknown_severity_dropped_counterexample:
  "parseOutput [] (utf16 ''a.zig:1:2: fatal: boom'') (utf16 ''a.zig'') [] = Inr []"
  by (simp add: zig_eval)

text \<open>
  C4, as amended. The line and the column of every diagnostic the Zig parser produces
  are what \<open>parseInt\<close> gives for the two groups of digits of its line of standard error,
  not adjusted: each is at least 1 exactly when its group has a digit other than 0, and
  is the decimal value of its group when that value is below \<open>2^53\<close> (beyond, it is the
  nearest double or \<open>Infinity\<close>).
\<close>

theorem zig_position_from_digits:
  assumes "parseOutput stdout stderr f projectRoot = Inr ds" and "d \<in> set ds"
  shows "\<exists>l \<in> set (split_newline stderr). \<exists>path g1 g2 w msg.
           zig_pattern l path g1 g2 w msg \<and>
           line d = parseInt g1 \<and> column d = parseInt g2 \<and>
           (at_least 1 (line d) \<longleftrightarrow> (\<exists>c \<in> set g1. c \<noteq> 0x30)) \<and>
           (at_least 1 (column d) \<longleftrightarrow> (\<exists>c \<in> set g2. c \<noteq> 0x30)) \<and>
           (digits_value 0 g1 < 2 ^ 53 \<longrightarrow> line d = Finite (digits_value 0 g1)) \<and>
           (digits_value 0 g2 < 2 ^ 53 \<longrightarrow> column d = Finite (digits_value 0 g2))"
proof -
  from in_parseOutput_pattern [OF assms] obtain l path g1 g2 w msg where
    l: "l \<in> set (split_newline stderr)" and p: "zig_pattern l path g1 g2 w msg"
    and d: "d = \<lparr>line = parseInt g1, column = parseInt g2,
              severity = normalize_severity w, message = msg\<rparr>"
    by blast
  from p have g: "\<forall>c \<in> set g1. is_digit c" "\<forall>c \<in> set g2. is_digit c"
    by (simp_all add: zig_pattern_def)
  have "line d = parseInt g1" "column d = parseInt g2" by (simp_all add: d)
  moreover have "at_least 1 (line d) \<longleftrightarrow> (\<exists>c \<in> set g1. c \<noteq> 0x30)"
    using parseInt_at_least_one [OF g(1)] by (simp add: d)
  moreover have "at_least 1 (column d) \<longleftrightarrow> (\<exists>c \<in> set g2. c \<noteq> 0x30)"
    using parseInt_at_least_one [OF g(2)] by (simp add: d)
  moreover have "digits_value 0 g1 < 2 ^ 53 \<longrightarrow> line d = Finite (digits_value 0 g1)"
    using parseInt_exact [of g1] by (simp only: d diagnostic_result.simps) blast
  moreover have "digits_value 0 g2 < 2 ^ 53 \<longrightarrow> column d = Finite (digits_value 0 g2)"
    using parseInt_exact [of g2] by (simp only: d diagnostic_result.simps) blast
  ultimately show ?thesis using l p by blast
qed

theorem zig_position_from_digits_witness:
  "parseOutput [] (utf16 ''a.zig:12:0: error: e'') (utf16 ''a.zig'') [] =
     Inr [\<lparr>line = Finite 12, column = Finite 0, severity = Error, message = utf16 ''e''\<rparr>] \<and>
   (\<exists>l \<in> set (split_newline (utf16 ''a.zig:12:0: error: e'')). \<exists>path g1 g2 w msg.
      zig_pattern l path g1 g2 w msg \<and> parseInt g1 = Finite 12 \<and> parseInt g2 = Finite 0 \<and>
      (\<exists>c \<in> set g1. c \<noteq> 0x30) \<and> \<not> (\<exists>c \<in> set g2. c \<noteq> 0x30))"
proof -
  let ?d = "\<lparr>line = Finite 12, column = Finite 0, severity = Error, message = utf16 ''e''\<rparr>"
  have h: "parseOutput [] (utf16 ''a.zig:12:0: error: e'') (utf16 ''a.zig'') [] = Inr [?d]"
    by (simp add: zig_eval)
  have i: "?d \<in> set [?d]" by simp
  from zig_position_from_digits [OF h i] obtain l path g1 g2 w msg where
    l: "l \<in> set (split_newline (utf16 ''a.zig:12:0: error: e''))"
    and p: "zig_pattern l path g1 g2 w msg"
    and a: "line ?d = parseInt g1" "column ?d = parseInt g2"
    and b: "at_least 1 (line ?d) \<longleftrightarrow> (\<exists>c \<in> set g1. c \<noteq> 0x30)"
      "at_least 1 (column ?d) \<longleftrightarrow> (\<exists>c \<in> set g2. c \<noteq> 0x30)"
    by blast
  from a have "parseInt g1 = Finite 12" "parseInt g2 = Finite 0" by simp_all
  moreover from b have "\<exists>c \<in> set g1. c \<noteq> 0x30" "\<not> (\<exists>c \<in> set g2. c \<noteq> 0x30)"
    by (simp_all add: at_least_def)
  ultimately show ?thesis using h l p by blast
qed

text \<open>
  A line that reports line 0 and column 0 gives a diagnostic at line 0, column 0.
\<close>

theorem zig_position_zero_counterexample:
  "parseOutput [] (utf16 ''a.zig:0:0: error: x'') (utf16 ''a.zig'') [] =
     Inr [\<lparr>line = Finite 0, column = Finite 0, severity = Error, message = utf16 ''x''\<rparr>]"
  by (simp add: zig_eval)

text \<open>
  A line number beyond \<open>2^53\<close> that is no double arrives rounded.
\<close>

lemma zig_position_rounded:
  "parseOutput [] (utf16 ''a.zig:9007199254740993:1: error: x'') (utf16 ''a.zig'') [] =
     Inr [\<lparr>line = Finite 9007199254740992, column = Finite 1, severity = Error,
           message = utf16 ''x''\<rparr>]"
  by (simp add: zig_eval bit_length_54 Let_def)

text \<open>
  C10. \<open>parseOutput\<close> of the Zig configuration depends on its standard error argument
  only: the result is the same for every standard output, file and project root. The
  result lists the diagnostics of the lines of standard error in the order of the lines,
  at most one for each line, and a line that gives a diagnostic has the pattern
  \<open>path:line:column: (error|warning|note): message\<close>, whose parts make up the diagnostic.
\<close>

theorem zig_parseOutput_stderr_only:
  "parseOutput stdout stderr f projectRoot = parseOutput stdout' stderr f' projectRoot' \<and>
   parseOutput stdout stderr f projectRoot =
     Inr (concat (map line_diagnostics (split_newline stderr))) \<and>
   (d \<in> set (line_diagnostics l) \<longrightarrow>
      line_diagnostics l = [d] \<and>
      (\<exists>path g1 g2 w msg. zig_pattern l path g1 g2 w msg \<and>
         d = \<lparr>line = parseInt g1, column = parseInt g2,
              severity = normalize_severity w, message = msg\<rparr>))"
proof (intro conjI impI)
  show "parseOutput stdout stderr f projectRoot = parseOutput stdout' stderr f' projectRoot'"
    by (simp add: parseOutput_def)
  show "parseOutput stdout stderr f projectRoot =
     Inr (concat (map line_diagnostics (split_newline stderr)))"
    by (rule parseOutput_eq)
next
  assume d: "d \<in> set (line_diagnostics l)"
  then obtain m where m: "zig_match l = Some m"
    by (cases "zig_match l") (simp_all add: line_diagnostics_def)
  with d have dm: "d = diagnostic_of m" by (simp add: line_diagnostics_def)
  with m show "line_diagnostics l = [d]" by (simp add: line_diagnostics_def)
  from zig_match_Some(1) [OF m] obtain path where
    "zig_pattern l path (group1 m) (group2 m) (group3 m) (group4 m)" ..
  with dm show "\<exists>path g1 g2 w msg. zig_pattern l path g1 g2 w msg \<and>
         d = \<lparr>line = parseInt g1, column = parseInt g2,
              severity = normalize_severity w, message = msg\<rparr>"
    unfolding diagnostic_of_def by blast
qed

theorem zig_parseOutput_stderr_only_witness:
  "parseOutput (utf16 ''x.zig:9:9: error: on stdout'')
     (utf16 ''b.zig:2:1: warning: w'' @ [0x0A] @ utf16 ''a.zig:1:7: error: e'') (utf16 ''a.zig'') [] =
   parseOutput [] (utf16 ''b.zig:2:1: warning: w'' @ [0x0A] @ utf16 ''a.zig:1:7: error: e'') [] [] \<and>
   parseOutput [] (utf16 ''b.zig:2:1: warning: w'' @ [0x0A] @ utf16 ''a.zig:1:7: error: e'') [] [] =
     Inr [\<lparr>line = Finite 2, column = Finite 1, severity = Warning, message = utf16 ''w''\<rparr>,
          \<lparr>line = Finite 1, column = Finite 7, severity = Error, message = utf16 ''e''\<rparr>] \<and>
   \<lparr>line = Finite 1, column = Finite 7, severity = Error, message = utf16 ''e''\<rparr>
     \<in> set (line_diagnostics (utf16 ''a.zig:1:7: error: e'')) \<and>
   (\<exists>path g1 g2 w msg. zig_pattern (utf16 ''a.zig:1:7: error: e'') path g1 g2 w msg \<and>
      \<lparr>line = Finite 1, column = Finite 7, severity = Error, message = utf16 ''e''\<rparr> =
      \<lparr>line = parseInt g1, column = parseInt g2, severity = normalize_severity w, message = msg\<rparr>)"
proof -
  let ?d = "\<lparr>line = Finite 1, column = Finite 7, severity = Error, message = utf16 ''e''\<rparr>"
  let ?l = "utf16 ''a.zig:1:7: error: e''"
  let ?e = "utf16 ''b.zig:2:1: warning: w'' @ [0x0A] @ utf16 ''a.zig:1:7: error: e''"
  have i: "?d \<in> set (line_diagnostics ?l)" by (simp add: zig_eval line_diagnostics_def diagnostic_of_def)
  have v: "parseOutput [] ?e [] [] =
     Inr [\<lparr>line = Finite 2, column = Finite 1, severity = Warning, message = utf16 ''w''\<rparr>, ?d]"
    by (simp add: zig_eval)
  note t = zig_parseOutput_stderr_only
    [of "utf16 ''x.zig:9:9: error: on stdout''" ?e "utf16 ''a.zig''" "[]" "[]" "[]" "[]" ?d ?l]
  from t i v show ?thesis by blast
qed



section \<open>Properties of the status display\<close>

lemma length_fold_fulfil: "length (fold (fulfil vs) order slots) = length slots"
  by (induction order arbitrary: slots) (simp_all add: fulfil_def)

lemma nth_fold_fulfil:
  "length slots = length vs \<Longrightarrow> i < length vs \<Longrightarrow>
     fold (fulfil vs) order slots ! i = (if i \<in> set order then Some (vs ! i) else slots ! i)"
proof (induction order arbitrary: slots)
  case Nil
  show ?case by simp
next
  case (Cons j order)
  have len: "length (fulfil vs j slots) = length vs"
    using Cons.prems(1) by (simp add: fulfil_def)
  have "fold (fulfil vs) (j # order) slots ! i = fold (fulfil vs) order (fulfil vs j slots) ! i"
    by simp
  also have "\<dots> = (if i \<in> set order then Some (vs ! i) else fulfil vs j slots ! i)"
    by (rule Cons.IH [OF len Cons.prems(2)])
  also have "\<dots> = (if i \<in> set (j # order) then Some (vs ! i) else slots ! i)"
    using Cons.prems by (auto simp: fulfil_def nth_list_update)
  finally show ?case .
qed

lemma those_map_Some: "those (map Some xs) = Some xs"
  by (induction xs) simp_all

lemma those_None: "None \<in> set xs \<Longrightarrow> those xs = None"
  by (induction xs) (auto split: option.splits)

lemma promise_all_fulfilled:
  assumes "\<forall>i < length vs. i \<in> set order"
  shows "promise_all vs order = Some vs"
proof -
  have "fold (fulfil vs) order (replicate (length vs) None) = map Some vs"
  proof (rule nth_equalityI)
    show "length (fold (fulfil vs) order (replicate (length vs) None)) = length (map Some vs)"
      by (simp add: length_fold_fulfil)
  next
    fix i
    assume "i < length (fold (fulfil vs) order (replicate (length vs) None))"
    then have i: "i < length vs" by (simp add: length_fold_fulfil)
    with assms show "fold (fulfil vs) order (replicate (length vs) None) ! i = map Some vs ! i"
      by (simp add: nth_fold_fulfil)
  qed
  then show ?thesis by (simp add: promise_all_def those_map_Some)
qed

lemma promise_all_pending:
  assumes "i < length vs" "i \<notin> set order"
  shows "promise_all vs order = None"
proof -
  let ?s = "fold (fulfil vs) order (replicate (length vs) None)"
  from assms have "?s ! i = None" by (simp add: nth_fold_fulfil)
  moreover from assms(1) have "i < length ?s" by (simp add: length_fold_fulfil)
  ultimately have "None \<in> set ?s" by (metis nth_mem)
  then show ?thesis unfolding promise_all_def by (rule those_None)
qed

lemma display_eq: "display loaded results messages = messages @ map (status_line loaded) results"
  by (induction results arbitrary: messages) simp_all

lemma length_languages: "length languages = 12"
  by (simp add: languages_def)

text \<open>
  C9. When every probe finishes, in whatever order, \<open>showStatus\<close> returns, and the text
  it displays has the lines of the languages in the order of the language list, each
  line made from the result of the probe of its own language: the text is the same as
  when the probes finish in the order of the list.
\<close>

theorem showStatus_request_order:
  assumes "set order = {0..<length languages}"
  shows "showStatus loaded execCommand order =
           Some (join [0x0A]
             (status_header loaded @
              map (\<lambda>lg. status_line loaded (probe execCommand lg)) languages)) \<and>
         showStatus loaded execCommand order =
           showStatus loaded execCommand [0..<length languages]"
proof -
  have a: "promise_all (map (probe execCommand) languages) order' =
      Some (map (probe execCommand) languages)"
    if "set order' = {0..<length languages}" for order'
    using that by (intro promise_all_fulfilled) simp
  have b: "showStatus loaded execCommand order' =
           Some (join [0x0A]
             (status_header loaded @
              map (\<lambda>lg. status_line loaded (probe execCommand lg)) languages))"
    if "set order' = {0..<length languages}" for order'
    by (simp add: showStatus_def a [OF that] display_eq o_def)
  have "set [0..<length languages] = {0..<length languages}" by simp
  from b [OF assms] b [OF this] show ?thesis by simp
qed

theorem showStatus_request_order_witness:
  "set [11, 3, 2, 1, 0, 4, 5, 6, 7, 8, 10, 9] = {0..<length languages} \<and>
   showStatus None (\<lambda>argv. Resolved 0) [11, 3, 2, 1, 0, 4, 5, 6, 7, 8, 10, 9] =
     Some (join [0x0A]
       (status_header None @
        map (\<lambda>lg. status_line None (probe (\<lambda>argv. Resolved 0) lg)) languages)) \<and>
   showStatus None (\<lambda>argv. Resolved 0) [11, 3, 2, 1, 0, 4, 5, 6, 7, 8, 10, 9] =
     showStatus None (\<lambda>argv. Resolved 0) [0..<length languages]"
proof -
  have s: "set [11, 3, 2, 1, 0, 4, 5, 6, 7, 8, 10, 9] = {0..<length languages}"
    unfolding length_languages by code_simp
  from showStatus_request_order [OF s] s show ?thesis by blast
qed


section \<open>Properties of the output formatter\<close>

lemma aggregate_counts:
  "aggregate ds (errors, warnings) =
     (errors + length (filter (\<lambda>d. severity d = Error) ds),
      warnings + length (filter (\<lambda>d. severity d = Warning) ds))"
proof (induction ds arbitrary: errors warnings)
  case Nil
  show ?case by simp
next
  case (Cons d ds)
  show ?case by (cases "severity d") (simp_all add: Cons.IH)
qed

lemma exit_code_cases:
  "exit_code ds = (if \<exists>d \<in> set ds. severity d = Error \<or> severity d = Warning then 2 else 0)"
proof -
  have "length (filter (\<lambda>d. severity d = Error) ds) = 0 \<and>
        length (filter (\<lambda>d. severity d = Warning) ds) = 0 \<longleftrightarrow>
        \<not> (\<exists>d \<in> set ds. severity d = Error \<or> severity d = Warning)"
    by (auto simp: filter_empty_conv)
  then show ?thesis
    unfolding exit_code_def aggregate_counts by (simp del: length_0_conv)
qed

lemma info_only: "(\<forall>d \<in> set ds. severity d = Info) \<Longrightarrow>
  \<not> (\<exists>d \<in> set ds. severity d = Error \<or> severity d = Warning)"
  by auto

text \<open>
  C1. The exit code the Output Formatter derives from a check result is 0 when the list
  of diagnostics is empty or holds diagnostics of severity info only, and 2 when it holds
  at least one diagnostic of severity error or warning, in plain mode and in hook mode
  alike.
\<close>

theorem exit_code_by_severity:
  "((diagnostics r = [] \<or> (\<forall>d \<in> set (diagnostics r). severity d = Info)) \<longrightarrow>
      exit (format_plain detail r) = 0 \<and> exit (format_hook esc detail r) = 0) \<and>
   ((\<exists>d \<in> set (diagnostics r). severity d = Error \<or> severity d = Warning) \<longrightarrow>
      exit (format_plain detail r) = 2 \<and> exit (format_hook esc detail r) = 2)"
proof (intro conjI impI)
  assume "diagnostics r = [] \<or> (\<forall>d \<in> set (diagnostics r). severity d = Info)"
  then have "\<forall>d \<in> set (diagnostics r). severity d = Info" by auto
  then have z: "exit_code (diagnostics r) = 0"
    unfolding exit_code_cases using info_only by auto
  from z show "exit (format_plain detail r) = 0" by (simp add: format_plain_def)
  from z show "exit (format_hook esc detail r) = 0" by (simp add: format_hook_def)
next
  assume "\<exists>d \<in> set (diagnostics r). severity d = Error \<or> severity d = Warning"
  then have t: "exit_code (diagnostics r) = 2" by (simp add: exit_code_cases)
  from t show "exit (format_plain detail r) = 2" by (simp add: format_plain_def)
  from t show "exit (format_hook esc detail r) = 2" by (simp add: format_hook_def)
qed

theorem exit_code_by_severity_witness:
  "severity \<lparr>line = Finite 1, column = Finite 1, severity = Info, message = utf16 ''i''\<rparr> = Info \<and>
   exit (format_plain (\<lambda>d. message d)
     \<lparr>result_file = utf16 ''a.zig'', language = utf16 ''Zig'',
      diagnostics = [\<lparr>line = Finite 1, column = Finite 1, severity = Info, message = utf16 ''i''\<rparr>],
      toolAvailable = True\<rparr>) = 0 \<and>
   (\<exists>d \<in> set [\<lparr>line = Finite 1, column = Finite 1, severity = Info, message = utf16 ''i''\<rparr>,
               \<lparr>line = Finite 2, column = Finite 1, severity = Warning, message = utf16 ''w''\<rparr>].
      severity d = Error \<or> severity d = Warning) \<and>
   exit (format_hook sample_escape (\<lambda>d. message d)
     \<lparr>result_file = utf16 ''a.zig'', language = utf16 ''Zig'',
      diagnostics = [\<lparr>line = Finite 1, column = Finite 1, severity = Info, message = utf16 ''i''\<rparr>,
                     \<lparr>line = Finite 2, column = Finite 1, severity = Warning, message = utf16 ''w''\<rparr>],
      toolAvailable = True\<rparr>) = 2"
proof -
  let ?i = "\<lparr>line = Finite 1, column = Finite 1, severity = Info, message = utf16 ''i''\<rparr>"
  let ?w = "\<lparr>line = Finite 2, column = Finite 1, severity = Warning, message = utf16 ''w''\<rparr>"
  let ?r1 = "\<lparr>result_file = utf16 ''a.zig'', language = utf16 ''Zig'',
      diagnostics = [?i], toolAvailable = True\<rparr>"
  let ?r2 = "\<lparr>result_file = utf16 ''a.zig'', language = utf16 ''Zig'',
      diagnostics = [?i, ?w], toolAvailable = True\<rparr>"
  have a: "\<forall>d \<in> set (diagnostics ?r1). severity d = Info" by simp
  have b: "\<exists>d \<in> set (diagnostics ?r2). severity d = Error \<or> severity d = Warning" by simp
  from exit_code_by_severity [of ?r1 "\<lambda>d. message d" sample_escape] a
  have "exit (format_plain (\<lambda>d. message d) ?r1) = 0" by blast
  moreover from exit_code_by_severity [of ?r2 "\<lambda>d. message d" sample_escape] b
  have "exit (format_hook sample_escape (\<lambda>d. message d) ?r2) = 2" by blast
  ultimately show ?thesis using a b by simp
qed

text \<open>
  C7. In plain mode the formatter prints the line "No issues found" when the list of
  diagnostics is empty; when it is not empty, the first line it prints is the failure
  marker followed by the number of errors and the number of warnings.
\<close>

theorem plain_report_lines:
  "(diagnostics r = [] \<longrightarrow> stdout_lines (format_plain detail r) = [no_issues]) \<and>
   (diagnostics r \<noteq> [] \<longrightarrow>
      (\<exists>details. stdout_lines (format_plain detail r) =
         (failure_marker @
          decimal (length (filter (\<lambda>d. severity d = Error) (diagnostics r))) @
          utf16 '' error(s), '' @
          decimal (length (filter (\<lambda>d. severity d = Warning) (diagnostics r))) @
          utf16 '' warning(s)'') # details))"
  by (simp add: format_plain_def report_def summary_def aggregate_counts)

theorem plain_report_lines_witness:
  "diagnostics \<lparr>result_file = utf16 ''a.zig'', language = utf16 ''Zig'',
      diagnostics = [\<lparr>line = Finite 3, column = Finite 5, severity = Error, message = utf16 ''e''\<rparr>],
      toolAvailable = True\<rparr> \<noteq> [] \<and>
   (\<exists>details. stdout_lines (format_plain (\<lambda>d. message d)
      \<lparr>result_file = utf16 ''a.zig'', language = utf16 ''Zig'',
       diagnostics = [\<lparr>line = Finite 3, column = Finite 5, severity = Error, message = utf16 ''e''\<rparr>],
       toolAvailable = True\<rparr>) =
      ([0x2717, 0x20] @ utf16 ''1 error(s), 0 warning(s)'') # details) \<and>
   stdout_lines (format_plain (\<lambda>d. message d)
      \<lparr>result_file = utf16 ''a.zig'', language = utf16 ''Zig'', diagnostics = [],
       toolAvailable = True\<rparr>) = [utf16 ''No issues found'']"
proof -
  let ?e = "\<lparr>line = Finite 3, column = Finite 5, severity = Error, message = utf16 ''e''\<rparr>"
  let ?r1 = "\<lparr>result_file = utf16 ''a.zig'', language = utf16 ''Zig'',
      diagnostics = [?e], toolAvailable = True\<rparr>"
  let ?r0 = "\<lparr>result_file = utf16 ''a.zig'', language = utf16 ''Zig'',
      diagnostics = [], toolAvailable = True\<rparr>"
  have n: "diagnostics ?r1 \<noteq> []" by simp
  have d1: "decimal (Suc 0) = [0x31]" and d0: "decimal 0 = [0x30]"
    by code_simp+
  from plain_report_lines [of ?r1 "\<lambda>d. message d"] n
  have "\<exists>details. stdout_lines (format_plain (\<lambda>d. message d) ?r1) =
      ([0x2717, 0x20] @ utf16 ''1 error(s), 0 warning(s)'') # details"
    by (simp add: failure_marker_def d1 d0 utf16_def)
  moreover from plain_report_lines [of ?r0 "\<lambda>d. message d"]
  have "stdout_lines (format_plain (\<lambda>d. message d) ?r0) = [utf16 ''No issues found'']"
    by (simp add: no_issues_def)
  ultimately show ?thesis using n by blast
qed

text \<open>
  C8, as amended. In hook mode nothing is written to standard output. When the list of
  diagnostics is not empty, the report of plain mode is written to standard error inside
  the escape sequence; when it is empty, nothing is written to standard error either.
  The exit code is that of plain mode.
\<close>

theorem hook_report_on_stderr:
  "stdout_lines (format_hook esc detail r) = [] \<and>
   exit (format_hook esc detail r) = exit (format_plain detail r) \<and>
   (diagnostics r \<noteq> [] \<longrightarrow>
      stderr_lines (format_hook esc detail r) =
        [before_marker esc @ utf16 '']633;E;'' @
         join [0x0A] (stdout_lines (format_plain detail r)) @ terminator esc]) \<and>
   (diagnostics r = [] \<longrightarrow> stderr_lines (format_hook esc detail r) = [])"
  by (simp add: format_hook_def format_plain_def enclose_def)

theorem hook_report_on_stderr_witness:
  "stdout_lines (format_hook sample_escape (\<lambda>d. message d)
      \<lparr>result_file = utf16 ''a.zig'', language = utf16 ''Zig'',
       diagnostics = [\<lparr>line = Finite 3, column = Finite 5, severity = Info, message = utf16 ''i''\<rparr>],
       toolAvailable = True\<rparr>) = [] \<and>
   stderr_lines (format_hook sample_escape (\<lambda>d. message d)
      \<lparr>result_file = utf16 ''a.zig'', language = utf16 ''Zig'',
       diagnostics = [\<lparr>line = Finite 3, column = Finite 5, severity = Info, message = utf16 ''i''\<rparr>],
       toolAvailable = True\<rparr>) =
     [[0x1B] @ utf16 '']633;E;'' @ [0x2717, 0x20] @ utf16 ''0 error(s), 0 warning(s)'' @
      [0x0A] @ utf16 ''i'' @ [0x07]] \<and>
   exit (format_hook sample_escape (\<lambda>d. message d)
      \<lparr>result_file = utf16 ''a.zig'', language = utf16 ''Zig'',
       diagnostics = [\<lparr>line = Finite 3, column = Finite 5, severity = Info, message = utf16 ''i''\<rparr>],
       toolAvailable = True\<rparr>) = 0"
proof -
  let ?i = "\<lparr>line = Finite 3, column = Finite 5, severity = Info, message = utf16 ''i''\<rparr>"
  let ?r = "\<lparr>result_file = utf16 ''a.zig'', language = utf16 ''Zig'',
      diagnostics = [?i], toolAvailable = True\<rparr>"
  have n: "diagnostics ?r \<noteq> []" by simp
  have d0: "decimal 0 = [0x30]" by code_simp
  have p: "stdout_lines (format_plain (\<lambda>d. message d) ?r) =
     [[0x2717, 0x20] @ utf16 ''0 error(s), 0 warning(s)'', utf16 ''i'']"
    by (simp add: format_plain_def report_def summary_def failure_marker_def d0 utf16_def)
  have x: "exit (format_plain (\<lambda>d. message d) ?r) = 0"
    by (simp add: format_plain_def exit_code_def)
  note t = hook_report_on_stderr [of sample_escape "\<lambda>d. message d" ?r]
  from t have "stdout_lines (format_hook sample_escape (\<lambda>d. message d) ?r) = []" by blast
  moreover from t n have "stderr_lines (format_hook sample_escape (\<lambda>d. message d) ?r) =
     [before_marker sample_escape @ utf16 '']633;E;'' @
      join [0x0A] (stdout_lines (format_plain (\<lambda>d. message d) ?r)) @ terminator sample_escape]"
    by blast
  moreover from t x have "exit (format_hook sample_escape (\<lambda>d. message d) ?r) = 0" by simp
  ultimately show ?thesis unfolding p by (simp add: sample_escape_def utf16_def)
qed

text \<open>
  For a check without diagnostics plain mode prints "No issues found", and hook mode
  writes nothing to standard error: there the report is not wrapped and written.
\<close>

theorem hook_clean_silent_counterexample:
  "stdout_lines (format_plain (\<lambda>d. message d)
      \<lparr>result_file = utf16 ''a.zig'', language = utf16 ''Zig'', diagnostics = [],
       toolAvailable = True\<rparr>) = [utf16 ''No issues found''] \<and>
   stderr_lines (format_hook sample_escape (\<lambda>d. message d)
      \<lparr>result_file = utf16 ''a.zig'', language = utf16 ''Zig'', diagnostics = [],
       toolAvailable = True\<rparr>) = []"
  by (simp add: format_plain_def format_hook_def report_def no_issues_def)

text \<open>The numeral of a count reads back as the count.\<close>

lemma digits_value_append:
  "digits_value acc (xs @ [c]) = 10 * digits_value acc xs + (unat c - 0x30)"
  by (induction xs arbitrary: acc) simp_all

lemma unat_digit: "d < 10 \<Longrightarrow> unat (of_nat (48 + d) :: 16 word) - 48 = d"
proof -
  assume "d < 10"
  then have "48 + d < 2 ^ LENGTH(16)" by simp
  then have "unat (of_nat (48 + d) :: 16 word) = 48 + d"
    by (simp only: unat_of_nat mod_less)
  then show ?thesis by (simp only: add_diff_cancel_left')
qed

lemma digits_value_decimal: "digits_value 0 (decimal n) = n"
proof (induction n rule: decimal.induct)
  case (1 n)
  show ?case
  proof (cases "n < 10")
    case True
    then show ?thesis
      using unat_digit [of n] by (simp add: decimal.simps [of n] del: of_nat_add)
  next
    case False
    with 1 have "digits_value 0 (decimal (n div 10)) = n div 10" by simp
    with False show ?thesis
      using unat_digit [of "n mod 10"]
      by (simp add: decimal.simps [of n] digits_value_append del: of_nat_add)
  qed
qed

lemma parseInt_decimal: "n < 2 ^ 53 \<Longrightarrow> parseInt (decimal n) = Finite n"
  using parseInt_exact [of "decimal n"] by (simp only: digits_value_decimal)


section \<open>Properties of the check engine\<close>

lemma exit_code_Nil: "exit_code [] = 0"
  by (simp add: exit_code_def)

lemma check_engine_disabled:
  assumes "resolve env f = Some lc" and "isDisabled (persisted env) (config_name lc)"
  shows "check_engine env f projectRoot st =
     (\<lparr>result_file = f, language = config_name lc, diagnostics = [], toolAvailable = True\<rparr>,
      st\<lparr>engine_calls := engine_calls st + 1\<rparr>)"
  using assms by (simp add: check_engine_def Let_def)

text \<open>
  C6. When the language a file resolves to is disabled, by the global flag or by the flag
  of the language, the Check Engine returns a result without diagnostics and spawns no
  process; the \<open>check\<close> command and a triggering hook on that file exit with code 0 and
  spawn no process either.
\<close>

theorem disabled_language_spawns_nothing:
  assumes "resolve env f = Some lc"
    and "disable c \<or> config_name lc \<in> disabledLanguages (Some c)"
    and "persisted env = Some c"
  shows "diagnostics (fst (check_engine env f projectRoot st)) = [] \<and>
         spawned (snd (check_engine env f projectRoot st)) = spawned st \<and>
         exit (fst (check_command env detail f projectRoot st)) = 0 \<and>
         spawned (snd (check_command env detail f projectRoot st)) = spawned st \<and>
         (parse_payload stdin = Some ev \<and> triggers (tool_name ev) \<and> file_path ev = f \<longrightarrow>
            exit (fst (hook_handler env parse_payload triggers esc detail stdin st)) = 0 \<and>
            spawned (snd (hook_handler env parse_payload triggers esc detail stdin st)) = spawned st)"
proof -
  from assms(2,3) have dis: "isDisabled (persisted env) (config_name lc)"
    by (simp add: isDisabled_def globalDisabled_def)
  note e = check_engine_disabled [OF assms(1) dis]
  have "diagnostics (fst (check_engine env f projectRoot st)) = []"
    "spawned (snd (check_engine env f projectRoot st)) = spawned st"
    by (simp_all add: e)
  moreover have "exit (fst (check_command env detail f projectRoot st)) = 0"
    "spawned (snd (check_command env detail f projectRoot st)) = spawned st"
    by (simp_all add: check_command_def e format_plain_def exit_code_Nil)
  moreover have
    "exit (fst (hook_handler env parse_payload triggers esc detail stdin st)) = 0 \<and>
     spawned (snd (hook_handler env parse_payload triggers esc detail stdin st)) = spawned st"
    if "parse_payload stdin = Some ev \<and> triggers (tool_name ev) \<and> file_path ev = f"
    using that
    by (simp add: hook_handler_def check_engine_disabled [OF assms(1) dis] format_hook_def
        exit_code_Nil)
  ultimately show ?thesis by blast
qed

theorem disabled_language_spawns_nothing_witness:
  "resolve (sample_env zig_only) (utf16 ''a.zig'') = Some zigConfig \<and>
   (disable zig_only \<or> config_name zigConfig \<in> disabledLanguages (Some zig_only)) \<and>
   persisted (sample_env zig_only) = Some zig_only \<and>
   diagnostics (fst (check_engine (sample_env zig_only) (utf16 ''a.zig'') (utf16 ''/p'')
      \<lparr>engine_calls = 0, spawned = []\<rparr>)) = [] \<and>
   spawned (snd (check_engine (sample_env zig_only) (utf16 ''a.zig'') (utf16 ''/p'')
      \<lparr>engine_calls = 0, spawned = []\<rparr>)) = [] \<and>
   exit (fst (check_command (sample_env zig_only) message (utf16 ''a.zig'') (utf16 ''/p'')
      \<lparr>engine_calls = 0, spawned = []\<rparr>)) = 0"
proof -
  have a: "resolve (sample_env zig_only) (utf16 ''a.zig'') = Some zigConfig"
    by (simp add: sample_env_def)
  have b: "disable zig_only \<or> config_name zigConfig \<in> disabledLanguages (Some zig_only)"
    by (simp add: zig_only_def zigConfig_def disabledLanguages_def add_if_def)
  have c: "persisted (sample_env zig_only) = Some zig_only"
    by (simp add: sample_env_def)
  from disabled_language_spawns_nothing [OF a b c, of "utf16 ''/p''" "\<lparr>engine_calls = 0, spawned = []\<rparr>" message]
    a b c show ?thesis by simp
qed


section \<open>Properties of the hook handler\<close>

text \<open>
  C5. When the payload on standard input is missing or malformed, or names a tool that
  does not create or edit files, the hook exits with code 0, writes nothing to standard
  output or standard error, and does not invoke the Check Engine.
\<close>

theorem hook_ignores_silently:
  assumes "parse_payload stdin = None \<or>
           (\<exists>ev. parse_payload stdin = Some ev \<and> \<not> triggers (tool_name ev))"
  shows "hook_handler env parse_payload triggers esc detail stdin st =
           (\<lparr>stdout_lines = [], stderr_lines = [], exit = 0\<rparr>, st) \<and>
         engine_calls (snd (hook_handler env parse_payload triggers esc detail stdin st)) =
           engine_calls st"
  using assms by (auto simp: hook_handler_def)

theorem hook_ignores_silently_witness:
  "(sample_parse (utf16 ''{'') = None \<or>
      (\<exists>ev. sample_parse (utf16 ''{'') = Some ev \<and> \<not> sample_triggers (tool_name ev))) \<and>
   hook_handler (sample_env zig_only) sample_parse sample_triggers sample_escape message (utf16 ''{'')
      \<lparr>engine_calls = 0, spawned = []\<rparr> =
     (\<lparr>stdout_lines = [], stderr_lines = [], exit = 0\<rparr>, \<lparr>engine_calls = 0, spawned = []\<rparr>) \<and>
   (sample_parse (utf16 ''read'') = None \<or>
      (\<exists>ev. sample_parse (utf16 ''read'') = Some ev \<and> \<not> sample_triggers (tool_name ev))) \<and>
   hook_handler (sample_env zig_only) sample_parse sample_triggers sample_escape message (utf16 ''read'')
      \<lparr>engine_calls = 0, spawned = []\<rparr> =
     (\<lparr>stdout_lines = [], stderr_lines = [], exit = 0\<rparr>, \<lparr>engine_calls = 0, spawned = []\<rparr>)"
proof -
  have a: "sample_parse (utf16 ''{'') = None \<or>
      (\<exists>ev. sample_parse (utf16 ''{'') = Some ev \<and> \<not> sample_triggers (tool_name ev))"
    by (simp add: sample_parse_def utf16_def)
  have b: "sample_parse (utf16 ''read'') = None \<or>
      (\<exists>ev. sample_parse (utf16 ''read'') = Some ev \<and> \<not> sample_triggers (tool_name ev))"
    by (simp add: sample_parse_def sample_triggers_def utf16_def)
  note t = hook_ignores_silently [of sample_parse _ sample_triggers "sample_env zig_only"
      sample_escape message "\<lparr>engine_calls = 0, spawned = []\<rparr>"]
  from t [OF a] t [OF b] a b show ?thesis by blast
qed

text \<open>
  For comparison, an \<open>Edit\<close> payload on a file with an error: the engine runs once, one
  process is spawned, and the report goes to standard error with exit code 2.
\<close>

lemma hook_edit_invokes_engine:
  "hook_handler (sample_env (zig_only\<lparr>disableZig := False\<rparr>)) sample_parse sample_triggers
      sample_escape message (utf16 ''edit'') \<lparr>engine_calls = 0, spawned = []\<rparr> =
     (\<lparr>stdout_lines = [],
       stderr_lines = [[0x1B] @ utf16 '']633;E;'' @ failure_marker @
                       utf16 ''1 error(s), 0 warning(s)'' @ [0x0A] @ utf16 ''e'' @ [0x07]],
       exit = 2\<rparr>,
      \<lparr>engine_calls = 1, spawned = [[utf16 ''/usr/bin/zig'', utf16 ''ast-check'', utf16 ''a.zig'']]\<rparr>)"
proof -
  have p: "parseOutput [] (utf16 ''a.zig:1:1: error: e'') (utf16 ''a.zig'') (utf16 ''/p'') =
      Inr [\<lparr>line = Finite 1, column = Finite 1, severity = Error, message = utf16 ''e''\<rparr>]"
    by (simp add: zig_eval)
  have d1: "decimal (Suc 0) = [0x31]" and d0: "decimal 0 = [0x30]"
    by code_simp+
  have e: "\<not> isDisabled (Some (zig_only\<lparr>disableZig := False\<rparr>)) (utf16 ''Zig'')"
    by (simp add: isDisabled_def globalDisabled_def disabledLanguages_def add_if_def zig_only_def)
  have t: "sample_triggers (utf16 ''Edit'')" by (simp add: sample_triggers_def)
  note u = p [unfolded utf16_def, simplified] e [unfolded utf16_def, simplified]
    t [unfolded utf16_def, simplified]
  show ?thesis
    by (simp add: hook_handler_def sample_parse_def check_engine_def sample_env_def zigConfig_def
        u format_hook_def enclose_def sample_escape_def report_def summary_def exit_code_def
        failure_marker_def d1 d0 Let_def utf16_def)
qed


end
